theory Spec2Isabelle
  imports Complex_Main "HOL-Library.Char_ord" "HOL-Library.List_Lexorder"
    "HOL-Library.Product_Lexorder"
begin

section \<open>Evaluation score\<close>

text \<open>
  \<^verbatim>\<open>compute_eval_score\<close> of \<^verbatim>\<open>orchestrator.py\<close>. Python's unbounded integers are
  \<^typ>\<open>int\<close>; the arguments keep the order of the source's signature.
\<close>

definition compute_eval_score ::
  "bool \<Rightarrow> bool \<Rightarrow> bool \<Rightarrow> bool \<Rightarrow> int \<Rightarrow> int \<Rightarrow> int \<Rightarrow> bool \<Rightarrow> int" where
  "compute_eval_score design_b hard_invalid validators_ok tests_ok retries_beyond_first
      fixer_runs changed_files_total required_ok =
     (if \<not> design_b then 0
      else if hard_invalid then - 1
      else
        let score0 = (0::int);
            score1 = (if required_ok then score0 + 40 else score0);
            score2 = (if validators_ok then score1 + 30 else score1);
            score3 = (if tests_ok then score2 + 30 else score2);
            score4 = score3 - 5 * retries_beyond_first;
            score5 = score4 - 10 * fixer_runs;
            score6 = score5 - max 0 (changed_files_total - 20)
        in max 0 score6)"

text \<open>The score as the specification words it: each boolean contributes its weight.\<close>

definition weight :: "bool \<Rightarrow> int" where
  "weight b = (if b then 1 else 0)"

definition spec_score ::
  "bool \<Rightarrow> bool \<Rightarrow> bool \<Rightarrow> bool \<Rightarrow> int \<Rightarrow> int \<Rightarrow> int \<Rightarrow> bool \<Rightarrow> int" where
  "spec_score design_b hard_invalid validators_ok tests_ok retries_beyond_first
      fixer_runs changed_files_total required_ok =
     (if \<not> design_b then 0
      else if hard_invalid then - 1
      else max 0 (40 * weight required_ok + 30 * weight validators_ok + 30 * weight tests_ok
                  - 5 * retries_beyond_first - 10 * fixer_runs
                  - max 0 (changed_files_total - 20)))"

section \<open>Errors\<close>

text \<open>
  Every exception the modelled code can raise is a value. \<open>OrchestratorError\<close> carries
  the error code of the source's exception class.
\<close>

datatype error =
    ZeroDivisionError
  | IndexError
  | ValueError
  | StopIteration
  | NotADirectoryError
  | UnicodeDecodeError
  | OrchestratorError string

section \<open>Policy store and variant statistics\<close>

text \<open>
  The policy document is a JSON object in the source. Here its keys are the fields of a
  record, holding the values the source reads with \<^verbatim>\<open>policy.get(key, default)\<close> and
  converts with \<^verbatim>\<open>int\<close>, \<^verbatim>\<open>float\<close>, \<^verbatim>\<open>str\<close>. The three counter dictionaries of a
  bucket are maps from the variant id, read with default 0 as \<^verbatim>\<open>d.get(v, 0)\<close> does.
\<close>

text \<open>
  A Python float is a binary64 number; a finite one is the \<^typ>\<open>real\<close> number it denotes.
  Comparison and negation of floats are exact, so they are those of \<^typ>\<open>real\<close>. The
  other operations round, and \<^verbatim>\<open>math.log\<close> is the platform's: they are not computed
  here but taken as they are, one parameter for each operation the source applies.
  Infinities and NaN, which need a non-finite or overflowing coefficient, are not
  modelled.
\<close>

record float_arith =
  int_truediv :: "int \<Rightarrow> int \<Rightarrow> real"
  float_of_int :: "int \<Rightarrow> real"
  float_add :: "real \<Rightarrow> real \<Rightarrow> real"
  float_sub :: "real \<Rightarrow> real \<Rightarrow> real"
  float_mul :: "real \<Rightarrow> real \<Rightarrow> real"
  float_truediv :: "real \<Rightarrow> real \<Rightarrow> real"
  math_sqrt :: "real \<Rightarrow> real"
  math_log :: "int \<Rightarrow> real"

record commit_state =
  active :: bool
  best :: "string option"
  remaining :: int
  consecutive_not_clean_best :: int

record bucket =
  attempts :: "string \<rightharpoonup> int"
  passes :: "string \<rightharpoonup> int"
  clean_passes :: "string \<rightharpoonup> int"
  last_rr_index :: int
  commit :: commit_state
  eliminated :: "string list"
  bucket_selection_strategy :: "string option"

record limits =
  ov_max_changed_files :: "int option"
  ov_max_total_bytes_changed :: "int option"
  ov_max_deleted_files :: "int option"

record policy =
  selection_strategy :: string
  bootstrap_min_trials_per_variant :: int
  ucb_c :: real
  commit_window_runs :: int
  elim_min_trials :: int
  elim_min_mean_clean :: real
  elim_max_failure_rate :: real
  step_limits_overrides :: "string \<rightharpoonup> limits"
  constraint_patches :: "string \<rightharpoonup> string list"
  stats :: "string \<rightharpoonup> bucket"

text \<open>
  The defaults. The literals \<^verbatim>\<open>0.1\<close> and \<^verbatim>\<open>0.9\<close> are the binary64 numbers nearest
  to them.
\<close>

definition DEFAULT_POLICY :: policy where
  "DEFAULT_POLICY =
     \<lparr> selection_strategy = ''ucb1'',
       bootstrap_min_trials_per_variant = 3,
       ucb_c = 1,
       commit_window_runs = 10,
       elim_min_trials = 6,
       elim_min_mean_clean = 3602879701896397 / 2 ^ 55,
       elim_max_failure_rate = 8106479329266893 / 2 ^ 53,
       step_limits_overrides = Map.empty,
       constraint_patches = Map.empty,
       stats = Map.empty \<rparr>"

definition policy_key :: "string \<Rightarrow> string \<Rightarrow> string" where
  "policy_key agent epoch = agent @ ''::'' @ epoch"

definition fresh_commit :: commit_state where
  "fresh_commit = \<lparr> active = False, best = None, remaining = 0, consecutive_not_clean_best = 0 \<rparr>"

definition fresh_bucket :: bucket where
  "fresh_bucket =
     \<lparr> attempts = Map.empty, passes = Map.empty, clean_passes = Map.empty,
       last_rr_index = - 1, commit = fresh_commit, eliminated = [],
       bucket_selection_strategy = None \<rparr>"

text \<open>
  \<^verbatim>\<open>get_variant_stats_bucket\<close>: the bucket of the key, created (and stored in the
  policy) on first access. The source returns a reference into the policy; the model
  returns the bucket together with the policy that now holds it.
\<close>

definition get_variant_stats_bucket :: "policy \<Rightarrow> string \<Rightarrow> string \<Rightarrow> bucket \<times> policy" where
  "get_variant_stats_bucket pol agent epoch =
     (let key = policy_key agent epoch in
      case stats pol key of
        None \<Rightarrow> (fresh_bucket, pol\<lparr>stats := (stats pol)(key \<mapsto> fresh_bucket)\<rparr>)
      | Some b \<Rightarrow> (b, pol))"

definition get0 :: "(string \<rightharpoonup> int) \<Rightarrow> string \<Rightarrow> int" where
  "get0 d v = (case d v of None \<Rightarrow> 0 | Some n \<Rightarrow> n)"

definition setdefault0 :: "(string \<rightharpoonup> int) \<Rightarrow> string list \<Rightarrow> (string \<rightharpoonup> int)" where
  "setdefault0 d vids = fold (\<lambda>v m. if m v = None then m(v \<mapsto> 0) else m) vids d"

definition mean_clean ::
  "float_arith \<Rightarrow> (string \<rightharpoonup> int) \<Rightarrow> (string \<rightharpoonup> int) \<Rightarrow> string \<Rightarrow> real" where
  "mean_clean fl cp att v = int_truediv fl (get0 cp v) (max 1 (get0 att v))"

text \<open>
  The round-robin step \<^verbatim>\<open>(last_rr + 1) % len(variant_ids_sorted)\<close>, which the source
  writes out twice. Python's \<^verbatim>\<open>%\<close> raises on a zero divisor and, for a positive
  divisor, is non-negative as \<open>mod\<close> on \<^typ>\<open>int\<close> is.
\<close>

definition rr_next :: "bucket \<Rightarrow> string list \<Rightarrow> error + (string \<times> bucket)" where
  "rr_next b vids =
     (if length vids = 0 then Inl ZeroDivisionError
      else let rr_index = (last_rr_index b + 1) mod int (length vids)
           in Inr (vids ! nat rr_index, b\<lparr>last_rr_index := rr_index\<rparr>))"

text \<open>
  The score of line 993: a true division of two ints, the logarithm of an int, a float
  divided by an int (converted first), a square root, a product and a sum.
\<close>

definition ucb_score ::
  "float_arith \<Rightarrow> real \<Rightarrow> (string \<rightharpoonup> int) \<Rightarrow> (string \<rightharpoonup> int) \<Rightarrow> int \<Rightarrow> string
     \<Rightarrow> real" where
  "ucb_score fl c cp att total_attempts v =
     float_add fl (mean_clean fl cp att v)
       (float_mul fl c
          (math_sqrt fl
             (float_truediv fl (math_log fl (max 1 total_attempts))
                (float_of_int fl (max 1 (get0 att v))))))"

fun list_index :: "string list \<Rightarrow> string \<Rightarrow> error + int" where
  "list_index [] x = Inl ValueError"
| "list_index (y # ys) x =
     (if y = x then Inr 0
      else case list_index ys x of Inl e \<Rightarrow> Inl e | Inr i \<Rightarrow> Inr (i + 1))"

definition str_opt :: "string option \<Rightarrow> string" where
  "str_opt s = (case s of None \<Rightarrow> ''None'' | Some t \<Rightarrow> t)"

definition normal_strategy :: "string \<Rightarrow> string" where
  "normal_strategy s =
     (if s \<notin> {''ucb1'', ''explore_then_commit'', ''rr_elimination''} then ''ucb1'' else s)"

text \<open>
  \<^verbatim>\<open>select_variant\<close>, on the bucket. \<open>sort_key\<close> is a stable sort, as Python's is.
\<close>

definition select_in_bucket ::
  "float_arith \<Rightarrow> policy \<Rightarrow> bucket \<Rightarrow> string list \<Rightarrow> error + (string \<times> bucket)" where
  "select_in_bucket fl pol b0 variant_ids_sorted =
     (let att = setdefault0 (attempts b0) variant_ids_sorted;
          pas = setdefault0 (passes b0) variant_ids_sorted;
          cp = setdefault0 (clean_passes b0) variant_ids_sorted;
          b = b0\<lparr>attempts := att, passes := pas, clean_passes := cp\<rparr>;
          bootstrap_min = bootstrap_min_trials_per_variant pol;
          needs_bootstrap = list_ex (\<lambda>v. get0 att v < bootstrap_min) variant_ids_sorted
      in
      if needs_bootstrap then rr_next b variant_ids_sorted
      else
        let strategy = normal_strategy (selection_strategy pol);
            b = b\<lparr>bucket_selection_strategy := Some strategy\<rparr>
        in
        if strategy = ''ucb1'' then
          (let total_attempts = sum_list (map (get0 att) variant_ids_sorted);
               scored = map (\<lambda>v. (ucb_score fl (ucb_c pol) cp att total_attempts v, v))
                          variant_ids_sorted
           in case sort_key (\<lambda>x. (- fst x, snd x)) scored of
                [] \<Rightarrow> Inl IndexError
              | x # _ \<Rightarrow> Inr (snd x, b))
        else if strategy = ''explore_then_commit'' then
          (let cm = commit b in
           if active cm \<and> remaining cm > 0 \<and> str_opt (best cm) \<in> set variant_ids_sorted
           then Inr (str_opt (best cm), b\<lparr>commit := cm\<lparr>remaining := remaining cm - 1\<rparr>\<rparr>)
           else
             case sort_key (\<lambda>v. (- mean_clean fl cp att v, v)) variant_ids_sorted of
               [] \<Rightarrow> Inl IndexError
             | bst # _ \<Rightarrow>
                 Inr (bst, b\<lparr>commit := cm\<lparr>active := True, best := Some bst,
                                          remaining := commit_window_runs pol - 1\<rparr>\<rparr>))
        else
          (let act = filter (\<lambda>v. v \<notin> set (eliminated b)) variant_ids_sorted in
           if act = [] then rr_next (b\<lparr>eliminated := []\<rparr>) variant_ids_sorted
           else
             let active_idx = (last_rr_index b + 1) mod int (length act);
                 chosen = act ! nat active_idx;
                 newly = filter (\<lambda>v.
                            get0 att v \<ge> elim_min_trials pol
                            \<and> (mean_clean fl cp att v < elim_min_mean_clean pol
                                \<or> float_sub fl 1 (int_truediv fl (get0 pas v) (max 1 (get0 att v)))
                                    > elim_max_failure_rate pol)) act
             in case list_index variant_ids_sorted chosen of
                  Inl e \<Rightarrow> Inl e
                | Inr i \<Rightarrow> Inr (chosen, b\<lparr>eliminated := sort (remdups (eliminated b @ newly)),
                                           last_rr_index := i\<rparr>)))"

definition select_variant ::
  "float_arith \<Rightarrow> policy \<Rightarrow> string \<Rightarrow> string \<Rightarrow> string list \<Rightarrow> error + (string \<times> policy)" where
  "select_variant fl pol agent epoch variant_ids_sorted =
     (case get_variant_stats_bucket pol agent epoch of (b, pol1) \<Rightarrow>
        (case select_in_bucket fl pol1 b variant_ids_sorted of
           Inl e \<Rightarrow> Inl e
         | Inr (chosen, b') \<Rightarrow>
             Inr (chosen, pol1\<lparr>stats := (stats pol1)(policy_key agent epoch \<mapsto> b')\<rparr>)))"

text \<open>
  \<^verbatim>\<open>update_variant_stats\<close>, on the bucket, and then on the policy. The parameter
  \<^verbatim>\<open>retries_used\<close> of the source is not read by its body. The literal \<^verbatim>\<open>0.3\<close> is
  the binary64 number nearest to it.
\<close>

definition update_in_bucket ::
  "float_arith \<Rightarrow> policy \<Rightarrow> bucket \<Rightarrow> string \<Rightarrow> bool \<Rightarrow> bool \<Rightarrow> bucket" where
  "update_in_bucket fl pol b variant_id passed clean_pass =
     (let att = (attempts b)(variant_id \<mapsto> get0 (attempts b) variant_id + 1);
          pas = (if passed then (passes b)(variant_id \<mapsto> get0 (passes b) variant_id + 1)
                 else passes b);
          cp = (if clean_pass
                then (clean_passes b)(variant_id \<mapsto> get0 (clean_passes b) variant_id + 1)
                else clean_passes b);
          b1 = b\<lparr>attempts := att, passes := pas, clean_passes := cp\<rparr>;
          cm = commit b1
      in
      if selection_strategy pol = ''explore_then_commit'' \<and> best cm = Some variant_id then
        (if clean_pass then b1\<lparr>commit := cm\<lparr>consecutive_not_clean_best := 0\<rparr>\<rparr>
         else
           let c = consecutive_not_clean_best cm + 1;
               cm1 = cm\<lparr>consecutive_not_clean_best := c\<rparr>;
               a = get0 att variant_id;
               mc = int_truediv fl (get0 cp variant_id) (max 1 a)
           in if c \<ge> 2 \<or> (a \<ge> 10 \<and> mc < 5404319552844595 / 2 ^ 54)
              then b1\<lparr>commit := cm1\<lparr>active := False, remaining := 0\<rparr>\<rparr>
              else b1\<lparr>commit := cm1\<rparr>)
      else b1)"

definition update_variant_stats ::
  "float_arith \<Rightarrow> policy \<Rightarrow> string \<Rightarrow> string \<Rightarrow> string \<Rightarrow> bool \<Rightarrow> bool \<Rightarrow> int \<Rightarrow> policy" where
  "update_variant_stats fl pol agent epoch variant_id passed clean_pass retries_used =
     (case get_variant_stats_bucket pol agent epoch of (b, pol1) \<Rightarrow>
        pol1\<lparr>stats := (stats pol1)(policy_key agent epoch \<mapsto>
                 update_in_bucket fl pol1 b variant_id passed clean_pass)\<rparr>)"

text \<open>
  The UCB1 score as the specification words it, on the stored counters of a bucket, with
  the operations of the float arithmetic.
\<close>

definition spec_ucb_score ::
  "float_arith \<Rightarrow> policy \<Rightarrow> bucket \<Rightarrow> string list \<Rightarrow> string \<Rightarrow> real" where
  "spec_ucb_score fl pol b vids v =
     float_add fl
       (int_truediv fl (get0 (clean_passes b) v) (max 1 (get0 (attempts b) v)))
       (float_mul fl (ucb_c pol)
          (math_sqrt fl
             (float_truediv fl
                (math_log fl (max 1 (\<Sum>w\<leftarrow>vids. get0 (attempts b) w)))
                (float_of_int fl (max 1 (get0 (attempts b) v))))))"

text \<open>The bucket under a key; a key never accessed reads as the fresh bucket.\<close>

definition bucket_of :: "policy \<Rightarrow> string \<Rightarrow> bucket" where
  "bucket_of pol key = (case stats pol key of None \<Rightarrow> fresh_bucket | Some b \<Rightarrow> b)"

section \<open>Strings and files\<close>

text \<open>
  File contents are byte strings read as text, so \<^verbatim>\<open>st_size\<close> is the length of the
  content, and \<^verbatim>\<open>str.lower\<close> acts on the ASCII letters. Paths are the POSIX
  repository-relative strings the source obtains with \<^verbatim>\<open>to_posix\<close>.
\<close>

type_synonym path = string
type_synonym content = string

text \<open>The result record of every validator.\<close>

record ValidatorResult =
  ok :: bool
  error_codes :: "string list"
  messages :: "string list"

definition startswith :: "string \<Rightarrow> string \<Rightarrow> bool" where
  "startswith s p = (take (length p) s = p)"

definition endswith :: "string \<Rightarrow> string \<Rightarrow> bool" where
  "endswith s p = (length p \<le> length s \<and> drop (length s - length p) s = p)"

fun contains :: "string \<Rightarrow> string \<Rightarrow> bool" where
  "contains sub [] = (sub = [])"
| "contains sub (c # cs) = (startswith (c # cs) sub \<or> contains sub cs)"

definition lower_char :: "char \<Rightarrow> char" where
  "lower_char c =
     (case map_of (zip ''ABCDEFGHIJKLMNOPQRSTUVWXYZ'' ''abcdefghijklmnopqrstuvwxyz'') c of
        None \<Rightarrow> c | Some l \<Rightarrow> l)"

definition str_lower :: "string \<Rightarrow> string" where
  "str_lower s = map lower_char s"

fun find_aux :: "string \<Rightarrow> string \<Rightarrow> int \<Rightarrow> int" where
  "find_aux sub [] i = (if sub = [] then i else - 1)"
| "find_aux sub (c # cs) i = (if startswith (c # cs) sub then i else find_aux sub cs (i + 1))"

definition str_find :: "string \<Rightarrow> string \<Rightarrow> nat \<Rightarrow> int" where
  "str_find s sub start =
     (if start > length s then - 1 else find_aux sub (drop start s) (int start))"

definition basename :: "path \<Rightarrow> string" where
  "basename p = rev (takeWhile (\<lambda>c. c \<noteq> CHR ''/'') (rev p))"

definition quote :: string where
  "quote = [CHR 0x27]"

definition newline :: string where
  "newline = [CHR 0x0A]"

text \<open>
  The working tree is the list of its regular files with their contents. A directory is
  present and non-empty when a file lies under it.
\<close>

definition files_under :: "(path \<times> content) list \<Rightarrow> path \<Rightarrow> (path \<times> content) list" where
  "files_under wt dir = filter (\<lambda>f. startswith (fst f) (dir @ ''/'')) wt"

text \<open>
  \<^verbatim>\<open>str.strip\<close> without argument removes the leading and trailing white space; on the
  lines of a command's output these are the ASCII white-space characters.
\<close>

definition is_space :: "char \<Rightarrow> bool" where
  "is_space c = (c \<in> set [CHR 0x20, CHR 0x09, CHR 0x0A, CHR 0x0B, CHR 0x0C, CHR 0x0D])"

definition strip :: "string \<Rightarrow> string" where
  "strip s = rev (dropWhile is_space (rev (dropWhile is_space s)))"

section \<open>Prompt and skill guardrails\<close>

text \<open>
  \<^verbatim>\<open>validate_design_b_prompt_skill_guardrails\<close>. Its two arguments are the regular
  files found under the prompts directory (\<^verbatim>\<open>PROMPTS_DIR.rglob("*")\<close>) and under the
  skills directory; of the latter the source visits those named \<^verbatim>\<open>SKILL.md\<close>
  (\<^verbatim>\<open>SKILLS_DIR.rglob("SKILL.md")\<close>). A directory that does not exist has no files.
  The two lists \<^verbatim>\<open>codes\<close> and \<^verbatim>\<open>msgs\<close> grow in step, so the model collects pairs.
\<close>

definition FORBIDDEN_SUBSTRINGS :: "string list" where
  "FORBIDDEN_SUBSTRINGS =
     [''ignore validators'',
      ''bypass allowlists'',
      ''write outside allowed paths'',
      ''mark step as done even if tests fail'',
      ''modify .orchestrator'']"

definition prompt_file_findings :: "path \<times> content \<Rightarrow> (string \<times> string) list" where
  "prompt_file_findings f =
     (case f of (path, raw) \<Rightarrow>
        let txt = str_lower raw in
        (if int (length raw) > 64 * 1024
         then [(''PROMPT_FILE_TOO_LARGE'', ''Prompt file exceeds 64KB: '' @ path)] else [])
        @ map (\<lambda>bad. (''PROMPT_FORBIDDEN_SUBSTRING'',
                       ''Prompt contains forbidden text '' @ quote @ bad @ quote @ '': '' @ path))
            (filter (\<lambda>bad. contains bad txt) FORBIDDEN_SUBSTRINGS)
        @ (if contains ''disable gating'' txt \<or> contains ''proceed on failure'' txt
           then [(''PROMPT_GATING_BYPASS'', ''Prompt attempts to disable gating: '' @ path)]
           else []))"

definition skill_file_findings :: "path \<times> content \<Rightarrow> (string \<times> string) list" where
  "skill_file_findings f =
     (case f of (path, txt) \<Rightarrow>
        (if int (length txt) > 64 * 1024
         then [(''SKILL_TOO_LARGE'', ''Skill file exceeds 64KB: '' @ path)] else [])
        @ (if \<not> startswith txt (''---'' @ newline)
           then [(''SKILL_FRONT_MATTER_MISSING'', ''Skill missing YAML front matter: '' @ path)]
           else
             let end = str_find txt (newline @ ''---'') 4 in
             if end < 0
             then [(''SKILL_FRONT_MATTER_MISSING'',
                    ''Skill missing closing YAML front matter: '' @ path)]
             else
               let fm = take (nat end - 4) (drop 4 txt) in
               if \<not> contains ''name:'' fm \<or> \<not> contains ''description:'' fm
               then [(''SKILL_FRONT_MATTER_KEYS_MISSING'',
                      ''Skill front matter missing name/description: '' @ path)]
               else [])
        @ map (\<lambda>bad. (''SKILL_FORBIDDEN_SUBSTRING'',
                       ''Skill contains forbidden text '' @ quote @ bad @ quote @ '': '' @ path))
            (filter (\<lambda>bad. contains bad (str_lower txt)) FORBIDDEN_SUBSTRINGS))"

definition validate_design_b_prompt_skill_guardrails ::
  "(path \<times> content) list \<Rightarrow> (path \<times> content) list \<Rightarrow> ValidatorResult" where
  "validate_design_b_prompt_skill_guardrails prompt_files skill_files =
     (let findings =
            concat (map prompt_file_findings prompt_files)
            @ concat (map skill_file_findings
                        (filter (\<lambda>f. basename (fst f) = ''SKILL.md'') skill_files))
      in \<lparr> ok = (findings = []), error_codes = map fst findings, messages = map snd findings \<rparr>)"

section \<open>Repository state\<close>

text \<open>
  The state the orchestrator observes and changes: the regular files of the working tree
  (\<open>worktree\<close>, path and content, at most one entry per path being read), the paths that
  are symbolic links, the paths that resolve outside the repository root, the ignore
  rules in force, and what the version-control tool reports: the index (tracked paths with
  the content a restore writes), the identifier of HEAD, the staged paths and the hash of
  the index file. The last two fields are what a scan of the variant directory of an agent
  key finds under \<^verbatim>\<open>prompts\<close> and under \<^verbatim>\<open>.orchestrator/prompt_templates\<close>: the path
  arithmetic that joins the key to the directory, and the decoding of the files, belong to
  the file system and the standard library, so the scan result is part of the state.
\<close>

text \<open>
  A variant file a recursive \<^verbatim>\<open>*.txt\<close> scan finds: its path relative to the repository
  root (none when \<^verbatim>\<open>relative_to\<close> raises, the file lying outside the root) and its text
  (none when its bytes are not valid UTF-8).
\<close>

record found_file =
  ff_id :: "string option"
  ff_text :: "string option"

text \<open>
  The path of a variant directory: absent, present but not a directory, or a directory,
  with whether it has any entry and the regular \<^verbatim>\<open>*.txt\<close> files below it.
\<close>

datatype dir_state = Absent | NotADirectory | Directory bool "found_file list"

record repo =
  worktree :: "(path \<times> content) list"
  symlinks :: "path list"
  outside :: "path list"
  ignored :: "path \<Rightarrow> bool"
  vcs_index :: "(path \<times> content) list"
  head_id :: string
  staged_paths :: "path list"
  git_index_hash :: "string option"
  prompts_dir :: "string \<Rightarrow> dir_state"
  templates_dir :: "string \<Rightarrow> dir_state"

definition file_exists :: "repo \<Rightarrow> path \<Rightarrow> bool" where
  "file_exists r p = (map_of (worktree r) p \<noteq> None)"

definition read_file :: "repo \<Rightarrow> path \<Rightarrow> content" where
  "read_file r p = (case map_of (worktree r) p of None \<Rightarrow> [] | Some c \<Rightarrow> c)"

definition is_dir :: "repo \<Rightarrow> path \<Rightarrow> bool" where
  "is_dir r p = (\<not> file_exists r p \<and> files_under (worktree r) p \<noteq> [])"

definition path_exists :: "repo \<Rightarrow> path \<Rightarrow> bool" where
  "path_exists r p = (file_exists r p \<or> is_dir r p)"

definition st_size :: "repo \<Rightarrow> path \<Rightarrow> int" where
  "st_size r p = int (length (read_file r p))"

definition unlink :: "repo \<Rightarrow> path \<Rightarrow> repo" where
  "unlink r p =
     r\<lparr>worktree := filter (\<lambda>f. fst f \<noteq> p) (worktree r),
       symlinks := removeAll p (symlinks r),
       outside := removeAll p (outside r)\<rparr>"

definition rmtree :: "repo \<Rightarrow> path \<Rightarrow> repo" where
  "rmtree r p =
     r\<lparr>worktree := filter (\<lambda>f. \<not> startswith (fst f) (p @ ''/'')) (worktree r),
       symlinks := filter (\<lambda>q. \<not> startswith q (p @ ''/'')) (symlinks r),
       outside := filter (\<lambda>q. \<not> startswith q (p @ ''/'')) (outside r)\<rparr>"

definition write_file :: "repo \<Rightarrow> path \<Rightarrow> content \<Rightarrow> repo" where
  "write_file r p c =
     r\<lparr>worktree := (p, c) # filter (\<lambda>f. fst f \<noteq> p) (worktree r),
       symlinks := removeAll p (symlinks r),
       outside := removeAll p (outside r)\<rparr>"

text \<open>
  Writing a path out of the index is forced: a regular file standing where the path needs
  a directory is unlinked, and a directory standing at the path is removed with what it
  holds.
\<close>

definition checkout_file :: "repo \<Rightarrow> path \<Rightarrow> content \<Rightarrow> repo" where
  "checkout_file r p c =
     (let in_the_way = (\<lambda>q. q = p \<or> startswith p (q @ ''/'') \<or> startswith q (p @ ''/''))
      in r\<lparr>worktree := (p, c) # filter (\<lambda>f. \<not> in_the_way (fst f)) (worktree r),
           symlinks := filter (\<lambda>q. \<not> in_the_way q) (symlinks r),
           outside := filter (\<lambda>q. \<not> in_the_way q) (outside r)\<rparr>)"

subsection \<open>The version-control adapter\<close>

text \<open>
  The version-control tool is an external collaborator. Its read commands and its
  restore are modelled from their documented behaviour: \<^verbatim>\<open>ls-files\<close> prints the paths
  of the index, \<^verbatim>\<open>ls-files --others --exclude-standard\<close> the working-tree files that
  are neither in the index nor ignored, each on a line of its own and, the source not
  passing \<^verbatim>\<open>-z\<close>, in the quoted form the tool gives a name that holds bytes it escapes
  (\<open>quote_path\<close>, the identity on every other name). \<^verbatim>\<open>restore --worktree -- paths\<close>
  takes no \<^verbatim>\<open>--source\<close>, so it writes the index content of every given path into the
  working tree; it fails, changing nothing, when a path is not known to the index, and
  \<^verbatim>\<open>run_cmd(..., check=True)\<close> then raises \<^verbatim>\<open>E_CMD_FAILED\<close>.
\<close>

definition git_ls_files :: "(path \<Rightarrow> string) \<Rightarrow> repo \<Rightarrow> string list" where
  "git_ls_files quote_path r = map quote_path (map fst (vcs_index r))"

definition git_ls_others :: "(path \<Rightarrow> string) \<Rightarrow> repo \<Rightarrow> string list" where
  "git_ls_others quote_path r =
     map quote_path
       (filter (\<lambda>p. map_of (vcs_index r) p = None \<and> \<not> ignored r p) (map fst (worktree r)))"

definition git_restore :: "repo \<Rightarrow> path list \<Rightarrow> error + repo" where
  "git_restore r paths =
     (if list_ex (\<lambda>p. map_of (vcs_index r) p = None) paths
      then Inl (OrchestratorError ''E_CMD_FAILED'')
      else Inr (fold (\<lambda>p r'. case map_of (vcs_index r) p of
                                 None \<Rightarrow> r' | Some c \<Rightarrow> checkout_file r' p c) paths r))"

section \<open>Prompt variants\<close>

text \<open>
  One scan of a variant directory, as \<^verbatim>\<open>prompt_variants_for_agent\<close> makes it twice:
  nothing when the path is absent or the directory has no entry; \<^verbatim>\<open>iterdir\<close> raises
  when the path is not a directory; the sort key raises when a found file has no path
  relative to the root; the files are then read in the order of their identifiers, and the
  first that is not valid UTF-8 raises.
\<close>

definition file_id :: "found_file \<Rightarrow> string" where
  "file_id f = (case ff_id f of None \<Rightarrow> [] | Some i \<Rightarrow> i)"

definition file_text :: "found_file \<Rightarrow> string" where
  "file_text f = (case ff_text f of None \<Rightarrow> [] | Some t \<Rightarrow> t)"

definition scan_variants :: "dir_state \<Rightarrow> error + (string \<times> string) list" where
  "scan_variants d =
     (case d of
        Absent \<Rightarrow> Inr []
      | NotADirectory \<Rightarrow> Inl NotADirectoryError
      | Directory has_entries txt_files \<Rightarrow>
          if \<not> has_entries then Inr []
          else if list_ex (\<lambda>f. ff_id f = None) txt_files then Inl ValueError
          else
            let files = sort_key file_id txt_files in
            if list_ex (\<lambda>f. ff_text f = None) files then Inl UnicodeDecodeError
            else Inr (map (\<lambda>f. (file_id f, file_text f)) files))"

definition embedded_base :: string where
  "embedded_base =
     ''You are the {role} specialist.'' @ newline
     @ ''Follow only the allowed paths for this step.'' @ newline
     @ ''Do not modify /.orchestrator/** or .git/**.'' @ newline
     @ ''Use deterministic, minimal edits.'' @ newline
     @ ''If a project brief is provided below, do not contradict it.'' @ newline"

definition embedded_variants :: "string \<Rightarrow> (string \<times> string) list" where
  "embedded_variants agent =
     [(''embedded/'' @ agent @ ''/v1'', embedded_base @ ''Variant: strict minimal edits.''),
      (''embedded/'' @ agent @ ''/v2'',
       embedded_base @ ''Variant: produce complete output in one pass.'')]"

definition prompt_variants_for_agent ::
  "repo \<Rightarrow> string \<Rightarrow> bool \<Rightarrow> error + (string \<times> string) list" where
  "prompt_variants_for_agent r agent design_b =
     (case (if design_b then scan_variants (prompts_dir r agent) else Inr []) of
        Inl err \<Rightarrow> Inl err
      | Inr from_prompts \<Rightarrow>
          if from_prompts \<noteq> [] then Inr from_prompts
          else
            (case scan_variants (templates_dir r agent) of
               Inl err \<Rightarrow> Inl err
             | Inr from_templates \<Rightarrow>
                 if from_templates \<noteq> [] then Inr from_templates
                 else Inr (embedded_variants agent)))"

section \<open>Environment\<close>

text \<open>
  What the code calls but the repository does not contain: the SHA-256 digest of the
  standard library (as hexadecimal text), \<^verbatim>\<open>fnmatch.fnmatch\<close>, the form in which the
  version-control tool prints a path, the float arithmetic, the agent subprocess, and
  the results of the file-format validators (\<^verbatim>\<open>file_validators\<close>, the eight results
  \<^verbatim>\<open>validate_all\<close> collects before the guardrails) and of the test commands, which no
  property below depends on. The agent receives a prompt and leaves an exit code and a repository
  state; it is an arbitrary function.
\<close>

record StepSpec =
  name :: string
  role :: string
  allowlist :: "string list"
  prompt_agent :: string
  optional :: bool
  can_modify_agents_md :: bool
  can_modify_prompts :: bool
  can_modify_brief :: bool
  can_modify_brief_yaml :: bool
  max_changed_files :: int
  max_total_bytes_changed :: int
  max_deleted_files :: int

text \<open>The dataclass defaults of \<^verbatim>\<open>StepSpec\<close>.\<close>

definition StepSpec_new :: "string \<Rightarrow> string \<Rightarrow> string list \<Rightarrow> string \<Rightarrow> StepSpec" where
  "StepSpec_new n rl al ag =
     \<lparr> name = n, role = rl, allowlist = al, prompt_agent = ag, optional = False,
       can_modify_agents_md = False, can_modify_prompts = False, can_modify_brief = False,
       can_modify_brief_yaml = False, max_changed_files = 60,
       max_total_bytes_changed = 500000, max_deleted_files = 0 \<rparr>"

record BriefConfig =
  cfg_exists :: bool
  cfg_project_type :: "string option"

text \<open>
  The prompts. \<^verbatim>\<open>build_step_prompt\<close> renders the step (after limit overrides), the
  variant text, the retry index, the constraint patch, the project type and the brief
  into one text; the fixer prompt holds the sorted failure codes and the brief. The
  agent being opaque, the prompt is kept as these parts.
\<close>

datatype agent_prompt =
    StepPrompt StepSpec string int "string list" string string
  | FixerPrompt "string list" string

record env =
  sha256_hex :: "string \<Rightarrow> string"
  fnmatch :: "string \<Rightarrow> string \<Rightarrow> bool"
  git_quote :: "path \<Rightarrow> string"
  float_ops :: float_arith
  codex :: "agent_prompt \<Rightarrow> repo \<Rightarrow> int \<times> repo"
  file_validators :: "bool \<Rightarrow> repo \<Rightarrow> ValidatorResult list"
  validate_base_files_and_structure :: "bool \<Rightarrow> repo \<Rightarrow> ValidatorResult"
  run_test_commands :: "repo \<Rightarrow> bool \<times> string option"

section \<open>Snapshots and diffs\<close>

record snapshot =
  hashes :: "(path \<times> string) list"
  head :: string
  staged :: "path list"
  untracked :: "path list"

text \<open>
  The lines of a command's output that are not blank, stripped, as every reader of a
  listing in the source takes them.
\<close>

definition stripped_lines :: "string list \<Rightarrow> string list" where
  "stripped_lines ls = filter (\<lambda>l. l \<noteq> []) (map strip ls)"

text \<open>
  \<^verbatim>\<open>iter_repo_files\<close>: the stripped lines of the two listings that name a regular file,
  as a sorted set. A name the tool prints quoted, or one that begins or ends with white
  space, names no file after stripping and is dropped here, as in the source.
\<close>

definition iter_repo_files :: "env \<Rightarrow> repo \<Rightarrow> bool \<Rightarrow> path list" where
  "iter_repo_files e r include_untracked =
     sort (remdups (filter (file_exists r)
       (stripped_lines (git_ls_files (git_quote e) r)
        @ (if include_untracked then stripped_lines (git_ls_others (git_quote e) r) else []))))"

definition snapshot_state :: "env \<Rightarrow> repo \<Rightarrow> snapshot" where
  "snapshot_state e r =
     \<lparr> hashes = map (\<lambda>p. (p, sha256_hex e (read_file r p))) (iter_repo_files e r True),
       head = head_id r,
       staged = stripped_lines (staged_paths r),
       untracked = sort (stripped_lines (git_ls_others (git_quote e) r)) \<rparr>"

text \<open>
  \<^verbatim>\<open>changed_paths_from_snapshots\<close>. The source appends to three lists in one pass over
  the sorted paths; each list is the sub-list of the paths that take its branch.
\<close>

definition in_snap :: "(path \<times> string) list \<Rightarrow> path \<Rightarrow> bool" where
  "in_snap h p = (map_of h p \<noteq> None)"

definition changed_paths_from_snapshots ::
  "snapshot \<Rightarrow> snapshot \<Rightarrow> path list \<times> path list \<times> path list" where
  "changed_paths_from_snapshots pre post =
     (let pre_h = hashes pre; post_h = hashes post;
          all_paths = sort (remdups (map fst pre_h @ map fst post_h));
          is_new = (\<lambda>p. \<not> in_snap pre_h p \<and> in_snap post_h p);
          is_deleted = (\<lambda>p. in_snap pre_h p \<and> \<not> in_snap post_h p);
          is_modified = (\<lambda>p. in_snap pre_h p \<and> in_snap post_h p \<and> map_of pre_h p \<noteq> map_of post_h p)
      in (filter (\<lambda>p. is_new p \<or> is_deleted p \<or> is_modified p) all_paths,
          filter is_deleted all_paths,
          filter is_new all_paths))"

section \<open>Path policy\<close>

fun split_on :: "char \<Rightarrow> string \<Rightarrow> string list" where
  "split_on d [] = [[]]"
| "split_on d (c # cs) =
     (if c = d then [] # split_on d cs
      else case split_on d cs of [] \<Rightarrow> [[c]] | w # ws \<Rightarrow> (c # w) # ws)"

fun join_with :: "string \<Rightarrow> string list \<Rightarrow> string" where
  "join_with sep [] = []"
| "join_with sep [x] = x"
| "join_with sep (x # y # ys) = x @ sep @ join_with sep (y # ys)"

text \<open>
  The components \<^verbatim>\<open>os.path.normpath\<close> keeps for a relative POSIX path: empty and
  \<^verbatim>\<open>.\<close> components go, \<^verbatim>\<open>..\<close> cancels the component before it unless there is none
  or it is \<^verbatim>\<open>..\<close> itself.
\<close>

definition normpath_parts :: "string \<Rightarrow> string list" where
  "normpath_parts rel =
     fold (\<lambda>comp acc.
             if comp = [] \<or> comp = ''.'' then acc
             else if comp \<noteq> ''..'' \<or> acc = [] \<or> last acc = ''..'' then acc @ [comp]
             else butlast acc)
          (split_on CHR ''/'' rel) []"

definition normalize_rel_path :: "string \<Rightarrow> string + string" where
  "normalize_rel_path rel =
     (if startswith rel ''/'' then Inl (''Absolute path not allowed: '' @ rel)
      else let parts = normpath_parts rel in
        if ''..'' \<in> set parts then Inl (''Path traversal rejected: '' @ rel)
        else if parts = [] then Inl (''Invalid path: '' @ rel)
        else Inr (join_with ''/'' parts))"

definition path_matches_glob :: "env \<Rightarrow> string \<Rightarrow> string \<Rightarrow> bool" where
  "path_matches_glob e pth pattern =
     (if endswith pattern ''/**''
      then let base = take (length pattern - 3) pattern
           in pth = base \<or> startswith pth (base @ ''/'')
      else fnmatch e pth pattern)"

definition check_forbidden_changes :: "path list \<Rightarrow> string list" where
  "check_forbidden_changes changed =
     concat (map (\<lambda>p.
        (if p = ''.git'' \<or> startswith p ''.git/''
         then [''Forbidden .git modification: '' @ p] else [])
        @ (if p = ''.orchestrator'' \<or> startswith p ''.orchestrator/''
           then [''Forbidden .orchestrator modification during run window: '' @ p] else []))
       changed)"

definition check_allowlist :: "env \<Rightarrow> StepSpec \<Rightarrow> repo \<Rightarrow> path list \<Rightarrow> string list" where
  "check_allowlist e step r changed =
     concat (map (\<lambda>raw.
        case normalize_rel_path raw of
          Inl msg \<Rightarrow> [msg]
        | Inr p \<Rightarrow>
            if path_exists r p \<and> p \<in> set (symlinks r)
            then [''Symlink path is not allowed: '' @ p]
            else if path_exists r p \<and> p \<in> set (outside r)
            then [''Path escapes repository root: '' @ p]
            else if \<not> list_ex (\<lambda>pat. path_matches_glob e p pat) (allowlist step)
            then [''Path not allowlisted for '' @ name step @ '': '' @ p]
            else [])
       changed)"

definition bytes_changed_for_paths :: "path list \<Rightarrow> snapshot \<Rightarrow> snapshot \<Rightarrow> repo \<Rightarrow> int" where
  "bytes_changed_for_paths paths pre post r =
     sum_list (map (\<lambda>p.
        if in_snap (hashes pre) p \<and> in_snap (hashes post) p then
          (if path_exists r p then st_size r p else 0)
        else if in_snap (hashes post) p then
          (if path_exists r p then st_size r p else 0)
        else if in_snap (hashes pre) p then
          (if path_exists r p then st_size r p else 0)
        else 0) paths)"

section \<open>Deterministic revert\<close>

text \<open>
  \<^verbatim>\<open>deterministic_revert\<close>. After the removals the source deletes the parent
  directories left empty; with directories given by the files under them, that changes
  nothing here. The result is the pair of lists the source returns and the repository.
\<close>

definition remove_path :: "path \<Rightarrow> repo \<times> path list \<Rightarrow> repo \<times> path list" where
  "remove_path rel acc =
     (case acc of (r, removed_actual) \<Rightarrow>
        if path_exists r rel \<or> rel \<in> set (symlinks r) then
          ((if is_dir r rel \<and> rel \<notin> set (symlinks r) then rmtree r rel else unlink r rel),
           removed_actual @ [rel])
        else (r, removed_actual))"

definition deterministic_revert ::
  "path list \<Rightarrow> path list \<Rightarrow> path list \<Rightarrow> repo \<Rightarrow> error + ((path list \<times> path list) \<times> repo)" where
  "deterministic_revert changed_paths new_paths allowed_new_paths r =
     (let restore_paths = sort (filter (\<lambda>p. p \<notin> set new_paths) changed_paths);
          remove_paths = sort (filter (\<lambda>p. p \<notin> set allowed_new_paths) new_paths)
      in case (if restore_paths \<noteq> [] then git_restore r restore_paths else Inr r) of
           Inl err \<Rightarrow> Inl err
         | Inr r1 \<Rightarrow>
             (case fold remove_path remove_paths (r1, []) of
                (r2, removed_actual) \<Rightarrow> Inr ((restore_paths, removed_actual), r2)))"

section \<open>Steps\<close>

definition default_steps :: "bool \<Rightarrow> bool \<Rightarrow> StepSpec list" where
  "default_steps design_b backend_required =
     (let release_allow =
            [''REQUIREMENTS.md'', ''TEST.md'', ''AGENT_TASKS.md'', ''docker-compose.yml'',
             ''.env.example'', ''.gitignore'', ''design/**'', ''frontend/**'', ''backend/**'',
             ''tests/**'', ''PROJECT_BRIEF.md'', ''PROJECT_BRIEF.yaml'']
            @ (if design_b then [''AGENTS.md''] else [])
      in
      [(StepSpec_new ''release_engineer'' ''Release Engineer'' (sort release_allow)
          ''release_engineer'')
         \<lparr>can_modify_agents_md := design_b, can_modify_brief := True,
          can_modify_brief_yaml := True\<rparr>,
       StepSpec_new ''requirements'' ''Requirements Analyst''
          [''REQUIREMENTS.md'', ''AGENT_TASKS.md''] ''requirements'',
       StepSpec_new ''designer'' ''UX / Designer''
          [''design/**'', ''REQUIREMENTS.md''] ''designer'',
       StepSpec_new ''frontend'' ''Frontend Dev''
          [''frontend/**'', ''tests/**'', ''TEST.md''] ''frontend'']
      @ (if backend_required
         then [StepSpec_new ''backend'' ''Backend Dev''
                 [''backend/**'', ''tests/**'', ''TEST.md'', ''.env.example'',
                  ''docker-compose.yml''] ''backend'']
         else [])
      @ [StepSpec_new ''qa'' ''QA Tester'' [''tests/**'', ''TEST.md''] ''qa'',
         StepSpec_new ''docs'' ''Docs Writer''
           [''REQUIREMENTS.md'', ''TEST.md'', ''AGENT_TASKS.md''] ''docs''])"

definition hash_prompt_epoch ::
  "env \<Rightarrow> string \<Rightarrow> (string \<times> string) list \<Rightarrow> bool \<Rightarrow> repo \<Rightarrow> string" where
  "hash_prompt_epoch e agent variants design_b r =
     sha256_hex e
       (concat (map (\<lambda>v. fst v @ newline @ snd v @ newline) variants)
        @ (if design_b
           then concat (map (\<lambda>f. fst f @ sha256_hex e (snd f) @ newline)
                          (sort_key fst (files_under (worktree r) ''.codex/skills'')))
           else []))"

definition get_constraint_patch :: "policy \<Rightarrow> string \<Rightarrow> string list" where
  "get_constraint_patch pol step_name =
     (case constraint_patches pol step_name of None \<Rightarrow> [] | Some patch \<Rightarrow> take 8 patch)"

definition maybe_update_constraint_patch :: "policy \<Rightarrow> string \<Rightarrow> string list \<Rightarrow> policy" where
  "maybe_update_constraint_patch pol step_name codes =
     (let known = take 8 (sort (remdups codes)) in
      if known = [] then pol
      else pol\<lparr>constraint_patches := (constraint_patches pol)(step_name \<mapsto>
             take 8 (map (\<lambda>c. ''- Previous deterministic failure code: '' @ c
                                @ ''. Avoid triggering it.'') known))\<rparr>)"

definition tightened :: "int \<Rightarrow> int option \<Rightarrow> int" where
  "tightened current ov = (case ov of None \<Rightarrow> current | Some val \<Rightarrow> min current val)"

definition apply_step_limits_overrides :: "policy \<Rightarrow> StepSpec \<Rightarrow> StepSpec" where
  "apply_step_limits_overrides pol step =
     (case step_limits_overrides pol (name step) of
        None \<Rightarrow> step
      | Some ov \<Rightarrow>
          step\<lparr>max_changed_files := tightened (max_changed_files step) (ov_max_changed_files ov),
               max_total_bytes_changed :=
                 tightened (max_total_bytes_changed step) (ov_max_total_bytes_changed ov),
               max_deleted_files := tightened (max_deleted_files step) (ov_max_deleted_files ov)\<rparr>)"

text \<open>
  \<^verbatim>\<open>int(n * 0.8)\<close>: the product with the binary64 number nearest to 0.8, truncated
  towards zero. That number exceeds four fifths by less than \<^verbatim>\<open>2**-53\<close>, so for a cap
  of magnitude below \<^verbatim>\<open>2**50\<close> the rounded product truncates to the same integer as
  the product with the rational four fifths.
\<close>

definition four_fifths :: "int \<Rightarrow> int" where
  "four_fifths n = (if n \<ge> 0 then (4 * n) div 5 else - ((4 * (- n)) div 5))"

definition tighten_limits_on_failure :: "policy \<Rightarrow> StepSpec \<Rightarrow> policy" where
  "tighten_limits_on_failure pol step =
     pol\<lparr>step_limits_overrides := (step_limits_overrides pol)(name step \<mapsto>
          \<lparr> ov_max_changed_files =
              Some (min (max_changed_files step) (max 5 (four_fifths (max_changed_files step)))),
            ov_max_total_bytes_changed =
              Some (min (max_total_bytes_changed step)
                      (max 20000 (four_fifths (max_total_bytes_changed step)))),
            ov_max_deleted_files = Some (min (max_deleted_files step) 0) \<rparr>)\<rparr>"

section \<open>One step attempt\<close>

record RunWindowResult =
  exit_code :: int
  changed_paths :: "path list"
  deleted_paths :: "path list"
  new_paths :: "path list"
  bytes_changed :: int
  invariant_errors :: "string list"
  allowlist_errors :: "string list"
  cap_errors :: "string list"
  tracked_restore_paths :: "path list"
  removed_new_paths :: "path list"

definition digit_char :: "nat \<Rightarrow> char" where
  "digit_char n = ''0123456789'' ! n"

function show_nat :: "nat \<Rightarrow> string" where
  "show_nat n = (if n < 10 then [digit_char n] else show_nat (n div 10) @ [digit_char (n mod 10)])"
  by pat_completeness auto
termination
  by (relation "measure id") auto

declare show_nat.simps [simp del]

definition show_int :: "int \<Rightarrow> string" where
  "show_int i = (if i < 0 then ''-'' @ show_nat (nat (- i)) else show_nat (nat i))"

text \<open>
  The window between the two snapshots and the gate after it: lines 1254 to 1295 of
  \<^verbatim>\<open>run_step_once\<close>. \<open>pre\<close> is the snapshot taken before the agent ran, \<open>pre_hash\<close>
  the hash of the index file then, \<open>r\<close> the repository the agent left.
\<close>

definition must_revert :: "RunWindowResult \<Rightarrow> bool" where
  "must_revert res =
     (invariant_errors res \<noteq> [] \<or> allowlist_errors res \<noteq> [] \<or> cap_errors res \<noteq> [])"

definition gate_window ::
  "env \<Rightarrow> StepSpec \<Rightarrow> snapshot \<Rightarrow> string option \<Rightarrow> int \<Rightarrow> repo
     \<Rightarrow> error + (RunWindowResult \<times> repo)" where
  "gate_window e step pre pre_git_index_hash code r =
     (let post = snapshot_state e r in
      case changed_paths_from_snapshots pre post of (changed, deleted, new) \<Rightarrow>
      let invariant_errs =
            check_forbidden_changes changed
            @ (if head pre \<noteq> head post then [''Git HEAD changed during codex run''] else [])
            @ (if staged post \<noteq> [] then [''git diff --cached not empty after codex run'']
               else [])
            @ (if pre_git_index_hash \<noteq> None \<and> git_index_hash r \<noteq> None
                  \<and> pre_git_index_hash \<noteq> git_index_hash r
               then [''.git/index changed during codex run''] else []);
          allowlist_errs = check_allowlist e step r changed;
          changed_files_count = int (length changed);
          total_bytes = bytes_changed_for_paths changed pre post r;
          cap_errs =
            (if changed_files_count > max_changed_files step
             then [''Changed files cap exceeded: '' @ show_int changed_files_count @ ''>''
                   @ show_int (max_changed_files step)] else [])
            @ (if total_bytes > max_total_bytes_changed step
               then [''Byte cap exceeded: '' @ show_int total_bytes @ ''>''
                     @ show_int (max_total_bytes_changed step)] else [])
            @ (if int (length deleted) > max_deleted_files step
               then [''Deleted files cap exceeded: '' @ show_int (int (length deleted)) @ ''>''
                     @ show_int (max_deleted_files step)] else []);
          res = \<lparr> exit_code = code, changed_paths = changed, deleted_paths = deleted,
                  new_paths = new, bytes_changed = total_bytes,
                  invariant_errors = invariant_errs, allowlist_errors = allowlist_errs,
                  cap_errors = cap_errs, tracked_restore_paths = [],
                  removed_new_paths = [] \<rparr>
      in
      if must_revert res then
        (case deterministic_revert changed new [] r of
           Inl err \<Rightarrow> Inl err
         | Inr ((restore_paths, removed), r') \<Rightarrow>
             Inr (res\<lparr>tracked_restore_paths := restore_paths, removed_new_paths := removed\<rparr>, r'))
      else Inr (res, r))"

text \<open>
  \<^verbatim>\<open>run_step_once\<close>. The log lines it appends under the run directory are written
  after the gate and are not part of the result; they are left out.
\<close>

definition run_step_once ::
  "env \<Rightarrow> StepSpec \<Rightarrow> int \<Rightarrow> policy \<Rightarrow> bool \<Rightarrow> string \<Rightarrow> BriefConfig \<Rightarrow> repo
     \<Rightarrow> error + (RunWindowResult \<times> policy \<times> repo)" where
  "run_step_once e step0 step_attempt pol design_b brief_text brief_cfg r =
     (let step = apply_step_limits_overrides pol step0 in
      case prompt_variants_for_agent r (prompt_agent step) design_b of
        Inl err \<Rightarrow> Inl err
      | Inr listed \<Rightarrow>
      let variants = sort_key fst listed;
          epoch = hash_prompt_epoch e (prompt_agent step) variants design_b r;
          variant_ids = map fst variants
      in
      case select_variant (float_ops e) pol (prompt_agent step) epoch variant_ids of
        Inl err \<Rightarrow> Inl err
      | Inr (chosen_id, pol1) \<Rightarrow>
          (case find (\<lambda>v. fst v = chosen_id) variants of
             None \<Rightarrow> Inl StopIteration
           | Some v \<Rightarrow>
               let variant_text = snd v;
                   constraint_patch = get_constraint_patch pol1 (name step);
                   project_type =
                     (if cfg_exists brief_cfg
                      then (case cfg_project_type brief_cfg of None \<Rightarrow> [] | Some pt \<Rightarrow> pt)
                      else []);
                   prompt = StepPrompt step variant_text step_attempt constraint_patch
                              project_type brief_text;
                   pre = snapshot_state e r
               in
               if staged pre \<noteq> [] then Inl (OrchestratorError ''E_PRE_STAGED_NOT_EMPTY'')
               else
                 (case codex e prompt r of (code, r_post) \<Rightarrow>
                    (case gate_window e step pre (git_index_hash r) code r_post of
                       Inl err \<Rightarrow> Inl err
                     | Inr (res, r') \<Rightarrow>
                         let passed = (\<not> must_revert res \<and> code = 0);
                             clean = (passed \<and> step_attempt = 0);
                             pol2 = update_variant_stats (float_ops e) pol1 (prompt_agent step) epoch
                                      chosen_id passed clean step_attempt
                         in Inr (res, pol2, r')))))"

section \<open>Scheduler\<close>

definition brief_exists :: "repo \<Rightarrow> bool" where
  "brief_exists r = path_exists r ''PROJECT_BRIEF.md''"

text \<open>
  The loop over the changed paths in \<^verbatim>\<open>lock_violation_in_changes\<close> stops at the first
  path under the prompts or the skills directory.
\<close>

fun prompt_lock :: "path list \<Rightarrow> string list" where
  "prompt_lock [] = []"
| "prompt_lock (p # ps) =
     (if p = ''prompts'' \<or> startswith p ''prompts/'' then [''PROMPTS_RESTRICTED'']
      else if p = ''.codex/skills'' \<or> startswith p ''.codex/skills/'' then [''SKILLS_RESTRICTED'']
      else prompt_lock ps)"

definition lock_violation_in_changes :: "StepSpec \<Rightarrow> path list \<Rightarrow> bool \<Rightarrow> repo \<Rightarrow> string list" where
  "lock_violation_in_changes step changed design_b r =
     (if brief_exists r \<and> \<not> can_modify_brief step \<and> ''PROJECT_BRIEF.md'' \<in> set changed
      then [''PROJECT_BRIEF_LOCKED''] else [])
     @ (if path_exists r ''PROJECT_BRIEF.yaml'' \<and> \<not> can_modify_brief_yaml step
           \<and> ''PROJECT_BRIEF.yaml'' \<in> set changed
        then [''PROJECT_BRIEF_YAML_LOCKED''] else [])
     @ (if design_b \<and> path_exists r ''AGENTS.md'' \<and> \<not> can_modify_agents_md step
           \<and> ''AGENTS.md'' \<in> set changed
        then [''AGENTS_LOCKED''] else [])
     @ (if \<not> can_modify_prompts step then prompt_lock changed else [])"

definition fixer_supported :: "string list" where
  "fixer_supported =
     [''REQUIRED_FILE_MISSING'', ''REQUIRED_DIR_MISSING'', ''REQ_HEADING_MISSING'',
      ''TEST_HEADING_MISSING'', ''TEST_CODEBLOCK_MISSING'', ''AGENT_TASKS_HEADING_MISSING'',
      ''AGENT_TASKS_SECTION_MISSING'']"

text \<open>
  \<^verbatim>\<open>run_fixer_if_possible\<close>. Every invocation of the fixer appends one line to
  \<^verbatim>\<open>fixers.jsonl\<close>, before any revert; the log is threaded through, so it is returned
  also when the revert raises.
\<close>

record fixer_record =
  fx_step :: string
  fx_exit_code :: int
  fx_failure_codes :: "string list"
  fx_changed_paths :: "path list"
  fx_invariant_errors :: "string list"
  fx_allowlist_errors :: "string list"

definition run_fixer_if_possible ::
  "env \<Rightarrow> StepSpec \<Rightarrow> string list \<Rightarrow> string \<Rightarrow> repo \<Rightarrow> fixer_record list
     \<Rightarrow> fixer_record list \<times> (error + (bool \<times> repo))" where
  "run_fixer_if_possible e step failure_codes brief_text r fixer_log =
     (if \<not> list_ex (\<lambda>c. c \<in> set fixer_supported) failure_codes
      then (fixer_log, Inr (False, r))
      else
        let minimal_allow = [''REQUIREMENTS.md'', ''TEST.md'', ''AGENT_TASKS.md'', ''design/**'',
                             ''frontend/**'', ''backend/**'', ''tests/**''];
            fixer_step = step\<lparr>name := name step @ ''_fixer'', allowlist := minimal_allow\<rparr>;
            prompt = FixerPrompt (sort (remdups failure_codes)) brief_text;
            pre = snapshot_state e r
        in
        case codex e prompt r of (code, r_post) \<Rightarrow>
        let post = snapshot_state e r_post in
        case changed_paths_from_snapshots pre post of (changed, deleted, new) \<Rightarrow>
        let invariant_errs = check_forbidden_changes changed;
            allowlist_errs = check_allowlist e fixer_step r_post changed;
            flog = fixer_log @
                    [\<lparr> fx_step = name step, fx_exit_code = code,
                       fx_failure_codes = sort (remdups failure_codes),
                       fx_changed_paths = changed, fx_invariant_errors = invariant_errs,
                       fx_allowlist_errors = allowlist_errs \<rparr>]
        in
        if code \<noteq> 0 \<or> invariant_errs \<noteq> [] \<or> allowlist_errs \<noteq> [] then
          (case deterministic_revert changed new [] r_post of
             Inl err \<Rightarrow> (flog, Inl err)
           | Inr (_, r') \<Rightarrow> (flog, Inr (False, r')))
        else (flog, Inr (True, r_post)))"

text \<open>
  The state \<^verbatim>\<open>execute_specialist_steps\<close> carries: the policy, the repository, its
  counters, the errors of the current step and the fixer log.
\<close>

record sched =
  s_policy :: policy
  s_repo :: repo
  s_retries_beyond_first_total :: int
  s_fixer_runs_total :: int
  s_changed_files_total :: int
  s_hard_invalid :: bool
  s_step_errors :: "string list"
  s_fixers_jsonl :: "fixer_record list"

text \<open>
  One pass of the body of \<^verbatim>\<open>for attempt in range(attempts_limit)\<close>: the state after
  it and whether the step succeeded (the \<^verbatim>\<open>break\<close>) or the loop continues.
\<close>

definition attempt_body ::
  "env \<Rightarrow> StepSpec \<Rightarrow> bool \<Rightarrow> string \<Rightarrow> BriefConfig \<Rightarrow> int \<Rightarrow> sched \<Rightarrow> error + (bool \<times> sched)" where
  "attempt_body e step design_b brief_text brief_cfg attempt st =
     (case run_step_once e step attempt (s_policy st) design_b brief_text brief_cfg (s_repo st) of
        Inl err \<Rightarrow> Inl err
      | Inr (result, pol, r) \<Rightarrow>
          let st1 = st\<lparr>s_policy := pol, s_repo := r,
                       s_changed_files_total :=
                         s_changed_files_total st + int (length (changed_paths result))\<rparr>;
              lock_errors = lock_violation_in_changes step (changed_paths result) design_b r
          in
          if invariant_errors result \<noteq> [] \<or> allowlist_errors result \<noteq> []
             \<or> cap_errors result \<noteq> [] \<or> lock_errors \<noteq> []
          then
            Inr (False,
              st1\<lparr>s_step_errors := s_step_errors st1 @ invariant_errors result
                     @ allowlist_errors result @ cap_errors result @ lock_errors,
                  s_policy := tighten_limits_on_failure
                     (maybe_update_constraint_patch pol (name step)
                        [''ALLOWLIST_OR_INVARIANT_FAIL'']) step,
                  s_retries_beyond_first_total :=
                    (if attempt > 0 then s_retries_beyond_first_total st1 + 1
                     else s_retries_beyond_first_total st1)\<rparr>)
          else if exit_code result \<noteq> 0 then
            Inr (False,
              st1\<lparr>s_step_errors := s_step_errors st1
                     @ [''codex exit nonzero for '' @ name step @ '': ''
                        @ show_int (exit_code result)],
                  s_policy := maybe_update_constraint_patch pol (name step)
                                [''CODEX_EXIT_NONZERO''],
                  s_retries_beyond_first_total :=
                    (if attempt > 0 then s_retries_beyond_first_total st1 + 1
                     else s_retries_beyond_first_total st1)\<rparr>)
          else
            Inr (True,
              st1\<lparr>s_retries_beyond_first_total :=
                    (if attempt > 0 then s_retries_beyond_first_total st1 + attempt
                     else s_retries_beyond_first_total st1)\<rparr>))"

fun attempt_loop ::
  "env \<Rightarrow> StepSpec \<Rightarrow> bool \<Rightarrow> string \<Rightarrow> BriefConfig \<Rightarrow> int list \<Rightarrow> sched \<Rightarrow> error + (bool \<times> sched)" where
  "attempt_loop e step design_b brief_text brief_cfg [] st = Inr (False, st)"
| "attempt_loop e step design_b brief_text brief_cfg (attempt # rest) st =
     (case attempt_body e step design_b brief_text brief_cfg attempt st of
        Inl err \<Rightarrow> Inl err
      | Inr (step_ok, st') \<Rightarrow>
          if step_ok then Inr (True, st')
          else attempt_loop e step design_b brief_text brief_cfg rest st')"

text \<open>
  The body of \<^verbatim>\<open>for step in steps\<close>: the three attempts, then, when none succeeded,
  the optional fixer, called with the literal list of the source.
\<close>

definition run_one_step ::
  "env \<Rightarrow> bool \<Rightarrow> string \<Rightarrow> BriefConfig \<Rightarrow> StepSpec \<Rightarrow> sched \<Rightarrow> error + (bool \<times> sched)" where
  "run_one_step e design_b brief_text brief_cfg step st0 =
     (case attempt_loop e step design_b brief_text brief_cfg [0, 1, 2] (st0\<lparr>s_step_errors := []\<rparr>) of
        Inl err \<Rightarrow> Inl err
      | Inr (step_ok, st) \<Rightarrow>
          if step_ok then Inr (True, st)
          else
            (case run_fixer_if_possible e step [''VALIDATOR_FIX''] brief_text (s_repo st)
                    (s_fixers_jsonl st) of
               (flog, Inl err) \<Rightarrow> Inl err
             | (flog, Inr (fixer_ok, r)) \<Rightarrow>
                 if fixer_ok
                 then Inr (True, st\<lparr>s_repo := r, s_fixers_jsonl := flog,
                                     s_fixer_runs_total := s_fixer_runs_total st + 1\<rparr>)
                 else Inr (False, st\<lparr>s_repo := r, s_fixers_jsonl := flog, s_hard_invalid := True\<rparr>)))"

record step_summary =
  sm_step :: string
  sm_ok :: bool
  sm_errors :: "string list"

fun steps_loop ::
  "env \<Rightarrow> bool \<Rightarrow> string \<Rightarrow> BriefConfig \<Rightarrow> StepSpec list \<Rightarrow> sched \<Rightarrow> step_summary list
     \<Rightarrow> error + (sched \<times> step_summary list)" where
  "steps_loop e design_b brief_text brief_cfg [] st acc = Inr (st, acc)"
| "steps_loop e design_b brief_text brief_cfg (step # rest) st acc =
     (case run_one_step e design_b brief_text brief_cfg step st of
        Inl err \<Rightarrow> Inl err
      | Inr (step_ok, st') \<Rightarrow>
          let acc' = acc @ [\<lparr> sm_step = name step, sm_ok = step_ok, sm_errors = s_step_errors st' \<rparr>]
          in if \<not> step_ok then Inr (st', acc')
             else steps_loop e design_b brief_text brief_cfg rest st' acc')"

definition merge_validator_results :: "ValidatorResult list \<Rightarrow> ValidatorResult" where
  "merge_validator_results results =
     (let failed = filter (\<lambda>res. \<not> ok res) results;
          codes = concat (map error_codes failed);
          msgs = concat (map messages failed)
      in \<lparr> ok = (codes = []), error_codes = codes, messages = msgs \<rparr>)"

definition guardrails_of :: "repo \<Rightarrow> ValidatorResult" where
  "guardrails_of r =
     validate_design_b_prompt_skill_guardrails (files_under (worktree r) ''prompts'')
       (files_under (worktree r) ''.codex/skills'')"

definition validate_all :: "env \<Rightarrow> bool \<Rightarrow> repo \<Rightarrow> ValidatorResult" where
  "validate_all e design_b r =
     merge_validator_results
       (file_validators e design_b r @ (if design_b then [guardrails_of r] else []))"

record summary =
  sum_steps :: "step_summary list"
  sum_validator_errors :: "string list"
  sum_validator_error_codes :: "string list"
  sum_tests_ok :: bool
  sum_tests_error :: "string option"
  sum_hard_invalid :: bool
  sum_retries_beyond_first_total :: int
  sum_fixer_runs_total :: int
  sum_changed_files_total :: int
  sum_validators_ok :: bool
  sum_required_ok :: bool
  sum_score :: int

definition execute_specialist_steps ::
  "env \<Rightarrow> StepSpec list \<Rightarrow> policy \<Rightarrow> bool \<Rightarrow> string \<Rightarrow> BriefConfig \<Rightarrow> repo
     \<Rightarrow> fixer_record list \<Rightarrow> error + (summary \<times> policy \<times> repo \<times> fixer_record list)" where
  "execute_specialist_steps e step_list pol design_b brief_text brief_cfg r flog =
     (case steps_loop e design_b brief_text brief_cfg step_list
             \<lparr> s_policy = pol, s_repo = r, s_retries_beyond_first_total = 0,
               s_fixer_runs_total = 0, s_changed_files_total = 0, s_hard_invalid = False,
               s_step_errors = [], s_fixers_jsonl = flog \<rparr> [] of
        Inl err \<Rightarrow> Inl err
      | Inr (st, step_sums) \<Rightarrow>
          let validators = validate_all e design_b (s_repo st);
              tests = run_test_commands e (s_repo st);
              req_ok = ok (validate_base_files_and_structure e design_b (s_repo st))
          in Inr (\<lparr> sum_steps = step_sums,
                    sum_validator_errors = messages validators,
                    sum_validator_error_codes = error_codes validators,
                    sum_tests_ok = fst tests,
                    sum_tests_error = snd tests,
                    sum_hard_invalid = s_hard_invalid st,
                    sum_retries_beyond_first_total = s_retries_beyond_first_total st,
                    sum_fixer_runs_total = s_fixer_runs_total st,
                    sum_changed_files_total = s_changed_files_total st,
                    sum_validators_ok = ok validators,
                    sum_required_ok = req_ok,
                    sum_score = compute_eval_score design_b (s_hard_invalid st) (ok validators)
                              (fst tests) (s_retries_beyond_first_total st) (s_fixer_runs_total st)
                              (s_changed_files_total st) req_ok \<rparr>,
                  s_policy st, s_repo st, s_fixers_jsonl st))"

section \<open>Prompt tuner and the acceptance of its changes\<close>

definition prompt_tuner_step :: StepSpec where
  "prompt_tuner_step =
     (StepSpec_new ''prompt_tuner'' ''Prompt Tuner''
        [''prompts/**'', ''.codex/skills/**''] ''prompt_tuner'')
       \<lparr>can_modify_prompts := True\<rparr>"

definition run_prompt_tuner_once ::
  "env \<Rightarrow> policy \<Rightarrow> string \<Rightarrow> BriefConfig \<Rightarrow> repo
     \<Rightarrow> error + ((bool \<times> string list \<times> path list \<times> path list) \<times> policy \<times> repo)" where
  "run_prompt_tuner_once e pol brief_text brief_cfg r =
     (let step = prompt_tuner_step
      in
      case run_step_once e step 0 pol True brief_text brief_cfg r of
        Inl err \<Rightarrow> Inl err
      | Inr (result, pol', r1) \<Rightarrow>
          let errors = invariant_errors result @ allowlist_errors result @ cap_errors result;
              guard = guardrails_of r1
          in
          if \<not> ok guard then
            (case deterministic_revert (changed_paths result) (new_paths result) [] r1 of
               Inl err \<Rightarrow> Inl err
             | Inr (_, r2) \<Rightarrow>
                 Inr ((exit_code result = 0 \<and> errors @ error_codes guard = [],
                       errors @ error_codes guard, changed_paths result, new_paths result),
                      pol', r2))
          else
            Inr ((exit_code result = 0 \<and> errors = [], errors, changed_paths result,
                  new_paths result), pol', r1))"

record tuner_record =
  tr_ok :: bool
  tr_errors :: "string list"
  tr_changed_paths :: "path list"
  tr_regression :: "summary option"
  tr_accepted :: "bool option"

record run_summary =
  rs_design_b :: bool
  rs_baseline :: summary
  rs_tuner :: "tuner_record option"
  rs_final :: summary

text \<open>
  \<^verbatim>\<open>run_pipeline\<close> from the baseline run on (line 1693): the baseline, under the
  library feature the tuner and the regression run, and the choice of the final result.
  The result is the run summary and the repository and policy the run leaves.
\<close>

definition accept_tuner :: "summary \<Rightarrow> summary \<Rightarrow> bool" where
  "accept_tuner baseline regression =
     (sum_score regression > sum_score baseline \<and> sum_validators_ok regression \<and> sum_tests_ok regression
      \<and> \<not> sum_hard_invalid regression)"

definition run_pipeline_from_baseline ::
  "env \<Rightarrow> bool \<Rightarrow> StepSpec list \<Rightarrow> policy \<Rightarrow> string \<Rightarrow> BriefConfig \<Rightarrow> repo
     \<Rightarrow> error + (run_summary \<times> policy \<times> repo)" where
  "run_pipeline_from_baseline e design_b step_list pol brief_text brief_cfg r =
     (case execute_specialist_steps e step_list pol design_b brief_text brief_cfg r [] of
        Inl err \<Rightarrow> Inl err
      | Inr (baseline, pol1, r1, flog1) \<Rightarrow>
          if \<not> design_b then
            Inr (\<lparr> rs_design_b = design_b, rs_baseline = baseline, rs_tuner = None,
                   rs_final = baseline \<rparr>, pol1, r1)
          else
            (case run_prompt_tuner_once e pol1 brief_text brief_cfg r1 of
               Inl err \<Rightarrow> Inl err
             | Inr ((prompt_tuner_ok, tuner_errors, tuner_changed, tuner_new), pol2, r2) \<Rightarrow>
                 let tuner = \<lparr> tr_ok = prompt_tuner_ok, tr_errors = tuner_errors,
                               tr_changed_paths = tuner_changed, tr_regression = None,
                               tr_accepted = None \<rparr>
                 in
                 if prompt_tuner_ok then
                   (case execute_specialist_steps e step_list pol2 design_b brief_text
                           brief_cfg r2 flog1 of
                      Inl err \<Rightarrow> Inl err
                    | Inr (regression, pol3, r3, flog3) \<Rightarrow>
                        let accept = accept_tuner baseline regression;
                            tuner' = tuner\<lparr>tr_regression := Some regression,
                                          tr_accepted := Some accept\<rparr>
                        in
                        if accept then
                          Inr (\<lparr> rs_design_b = design_b, rs_baseline = baseline,
                                 rs_tuner = Some tuner', rs_final = regression \<rparr>, pol3, r3)
                        else
                          (case deterministic_revert tuner_changed tuner_new [] r3 of
                             Inl err \<Rightarrow> Inl err
                           | Inr (_, r4) \<Rightarrow>
                               Inr (\<lparr> rs_design_b = design_b, rs_baseline = baseline,
                                      rs_tuner = Some tuner', rs_final = baseline \<rparr>,
                                    pol3, r4)))
                 else
                   Inr (\<lparr> rs_design_b = design_b, rs_baseline = baseline,
                          rs_tuner = Some tuner, rs_final = baseline \<rparr>, pol2, r2)))"

definition exit_code_of :: "summary \<Rightarrow> int" where
  "exit_code_of final =
     (if sum_hard_invalid final then 4
      else if \<not> sum_validators_ok final then 6
      else if \<not> sum_tests_ok final then 7
      else 0)"

section \<open>Worked examples\<close>

text \<open>
  An environment for the worked examples: the digest is the identity (any injective
  function serves), \<^verbatim>\<open>fnmatch\<close> is equality, which is what it is on the patterns without
  wildcard used below, the paths are of those the version-control tool prints as they
  are, the validators and tests pass, and the float arithmetic and the agent are
  parameters. \<open>exact_arith\<close> is the arithmetic that does not round.
\<close>

definition exact_arith :: float_arith where
  "exact_arith =
     \<lparr> int_truediv = (\<lambda>a b. real_of_int a / real_of_int b), float_of_int = real_of_int,
       float_add = (+), float_sub = (-), float_mul = (*), float_truediv = (/),
       math_sqrt = sqrt, math_log = (\<lambda>n. ln (real_of_int n)) \<rparr>"

definition example_env :: "float_arith \<Rightarrow> (agent_prompt \<Rightarrow> repo \<Rightarrow> int \<times> repo) \<Rightarrow> env" where
  "example_env fl agent =
     \<lparr> sha256_hex = (\<lambda>c. c), fnmatch = (\<lambda>p pat. p = pat), git_quote = (\<lambda>p. p),
       float_ops = fl, codex = agent,
       file_validators = (\<lambda>b r. []),
       validate_base_files_and_structure =
         (\<lambda>b r. \<lparr> ok = True, error_codes = [], messages = [] \<rparr>),
       run_test_commands = (\<lambda>r. (True, None)) \<rparr>"

definition idle_agent :: "agent_prompt \<Rightarrow> repo \<Rightarrow> int \<times> repo" where
  "idle_agent prompt r = (0, r)"

definition example_repo :: "(path \<times> content) list \<Rightarrow> (path \<times> content) list \<Rightarrow> repo" where
  "example_repo wt idx =
     \<lparr> worktree = wt, symlinks = [], outside = [], ignored = (\<lambda>p. False), vcs_index = idx,
       head_id = ''c0ffee'', staged_paths = [], git_index_hash = Some ''i0'',
       prompts_dir = (\<lambda>agent. Absent), templates_dir = (\<lambda>agent. Absent) \<rparr>"

definition designer_step :: StepSpec where
  "designer_step =
     StepSpec_new ''designer'' ''UX / Designer'' [''design/**'', ''REQUIREMENTS.md''] ''designer''"

text \<open>
  The designer step changes the requirements document and creates a file outside its
  allowlist. Before the step the document is tracked and carries the uncommitted edit an
  earlier accepted step left (\<open>dirty_pre\<close>), or it was created by an earlier accepted
  step and is not tracked (\<open>untracked_pre\<close>).
\<close>

definition dirty_pre :: repo where
  "dirty_pre = example_repo [(''REQUIREMENTS.md'', ''second'')] [(''REQUIREMENTS.md'', ''first'')]"

definition violating_post :: repo where
  "violating_post =
     example_repo [(''REQUIREMENTS.md'', ''third''), (''backend/server.js'', ''x'')]
       [(''REQUIREMENTS.md'', ''first'')]"

definition gate_example :: "float_arith \<Rightarrow> repo \<Rightarrow> repo \<Rightarrow> error + (RunWindowResult \<times> repo)" where
  "gate_example fl pre post =
     gate_window (example_env fl idle_agent) designer_step
       (snapshot_state (example_env fl idle_agent) pre) (git_index_hash pre) 0 post"

definition dirty_gate :: "error + (RunWindowResult \<times> repo)" where
  "dirty_gate = gate_example exact_arith dirty_pre violating_post"

definition untracked_pre :: repo where
  "untracked_pre = example_repo [(''REQUIREMENTS.md'', ''second'')] []"

definition untracked_post :: repo where
  "untracked_post =
     example_repo [(''REQUIREMENTS.md'', ''third''), (''backend/server.js'', ''x'')] []"

definition untracked_gate :: "error + (RunWindowResult \<times> repo)" where
  "untracked_gate = gate_example exact_arith untracked_pre untracked_post"

text \<open>
  The document is as committed before the step; the agent edits it, which its allowlist
  permits, and stages the edit.
\<close>

definition committed_pre :: repo where
  "committed_pre =
     example_repo [(''REQUIREMENTS.md'', ''first'')] [(''REQUIREMENTS.md'', ''first'')]"

definition staged_post :: repo where
  "staged_post =
     (example_repo [(''REQUIREMENTS.md'', ''third'')] [(''REQUIREMENTS.md'', ''third'')])
       \<lparr>staged_paths := [''REQUIREMENTS.md''], git_index_hash := Some ''i1''\<rparr>"

definition staged_gate :: "error + (RunWindowResult \<times> repo)" where
  "staged_gate = gate_example exact_arith committed_pre staged_post"

text \<open>
  A repository in which the one variant file of the designer's prompt directory is not
  valid UTF-8.
\<close>

definition undecodable_repo :: repo where
  "undecodable_repo =
     (example_repo [] [])
       \<lparr>prompts_dir :=
          (\<lambda>agent. if agent = ''designer''
                    then Directory True
                           [\<lparr> ff_id = Some ''prompts/designer/v1.txt'', ff_text = None \<rparr>]
                    else Absent)\<rparr>"

definition no_brief_cfg :: BriefConfig where
  "no_brief_cfg = \<lparr> cfg_exists = False, cfg_project_type = None \<rparr>"

text \<open>A skill file with complete front matter whose body asks to disable gating.\<close>

definition skill_example :: "path \<times> content" where
  "skill_example =
     (''.codex/skills/qa/SKILL.md'',
      ''---'' @ newline @ ''name: qa'' @ newline @ ''description: d'' @ newline
      @ ''---'' @ newline @ ''Disable gating'' @ newline)"

text \<open>
  A step attempt of the scheduler. The brief is tracked and carries the uncommitted edit
  of the release engineer step, which may modify it (\<open>second\<close>; the committed content is
  \<open>first\<close>). The designer step, the third of the catalog, may not: its agent rewrites
  the brief.
\<close>

definition brief_editor :: "agent_prompt \<Rightarrow> repo \<Rightarrow> int \<times> repo" where
  "brief_editor prompt r = (0, write_file r ''PROJECT_BRIEF.md'' ''third'')"

definition brief_pre :: repo where
  "brief_pre = example_repo [(''PROJECT_BRIEF.md'', ''second'')] [(''PROJECT_BRIEF.md'', ''first'')]"

definition start_state :: "repo \<Rightarrow> sched" where
  "start_state r =
     \<lparr> s_policy = DEFAULT_POLICY, s_repo = r, s_retries_beyond_first_total = 0,
       s_fixer_runs_total = 0, s_changed_files_total = 0, s_hard_invalid = False,
       s_step_errors = [], s_fixers_jsonl = [] \<rparr>"

definition attempt_example :: "float_arith \<Rightarrow> error + (bool \<times> sched)" where
  "attempt_example fl =
     attempt_body (example_env fl brief_editor) (default_steps False False ! 2) False
       ''second'' no_brief_cfg 0 (start_state brief_pre)"

definition lock_attempt :: "error + (bool \<times> sched)" where
  "lock_attempt = attempt_example exact_arith"

text \<open>
  A run under the library feature. The prompt library was created earlier in the run by
  the bootstrap step and is not tracked: it holds one variant for the \<open>qa\<close> agent. The
  agent leaves the workspace as it is on every specialist step and rewrites the variant on
  the tuner step.
\<close>

definition set_prompt :: "repo \<Rightarrow> string \<Rightarrow> path \<Rightarrow> content \<Rightarrow> repo" where
  "set_prompt r agent p c =
     (write_file r p c)
       \<lparr>prompts_dir :=
          (prompts_dir r)(agent := Directory True [\<lparr> ff_id = Some p, ff_text = Some c \<rparr>])\<rparr>"

definition tuner_agent :: "agent_prompt \<Rightarrow> repo \<Rightarrow> int \<times> repo" where
  "tuner_agent prompt r =
     (case prompt of
        StepPrompt step variant_text attempt patch project_type brief \<Rightarrow>
          if name step = ''prompt_tuner''
          then (0, set_prompt r ''qa'' ''prompts/qa/v1.txt'' ''Be thorough.'')
          else (0, r)
      | FixerPrompt codes brief \<Rightarrow> (0, r))"

definition library_repo :: repo where
  "library_repo =
     set_prompt
       (example_repo [(''PROJECT_BRIEF.md'', ''brief'')] [(''PROJECT_BRIEF.md'', ''brief'')])
       ''qa'' ''prompts/qa/v1.txt'' ''Be careful.''"

definition tuned_repo :: repo where
  "tuned_repo = set_prompt library_repo ''qa'' ''prompts/qa/v1.txt'' ''Be thorough.''"

definition tuner_run :: "error + (run_summary \<times> policy \<times> repo)" where
  "tuner_run =
     run_pipeline_from_baseline (example_env exact_arith tuner_agent) True
       (default_steps True False) DEFAULT_POLICY ''brief'' no_brief_cfg library_repo"

text \<open>A stored bucket with equal counters for two variants.\<close>

definition ucb_example_bucket :: bucket where
  "ucb_example_bucket =
     fresh_bucket\<lparr>attempts := [''v1'' \<mapsto> 3, ''v2'' \<mapsto> 3],
                   clean_passes := [''v1'' \<mapsto> 1, ''v2'' \<mapsto> 1]\<rparr>"

definition ucb_example_policy :: policy where
  "ucb_example_policy =
     DEFAULT_POLICY\<lparr>stats := [policy_key ''qa'' ''e1'' \<mapsto> ucb_example_bucket]\<rparr>"

section \<open>Results\<close>

text \<open>
  C6. For every run the score computed by the code is the score of the specification:
  0 when the library feature is off, -1 when it is on and the run is hard-invalid, and
  otherwise the weighted sum 40, 30, 30 of the three booleans minus 5 per retry beyond the
  first, 10 per fixer run and the excess of changed files over 20, clamped below at 0.
\<close>

theorem compute_eval_score_spec:
  "compute_eval_score design_b hard_invalid validators_ok tests_ok retries_beyond_first
      fixer_runs changed_files_total required_ok
   = spec_score design_b hard_invalid validators_ok tests_ok retries_beyond_first
      fixer_runs changed_files_total required_ok"
  by (simp add: compute_eval_score_def spec_score_def weight_def Let_def)

theorem compute_eval_score_spec_witness:
  "compute_eval_score True False True True 1 0 23 True = 92
   \<and> spec_score True False True True 1 0 23 True = 92"
  using compute_eval_score_spec [of True False True True 1 0 23 True]
  by (simp add: spec_score_def weight_def)

subsection \<open>Variant selection and statistics\<close>

lemma get0_setdefault0 [simp]: "get0 (setdefault0 d vids) v = get0 d v"
  unfolding setdefault0_def
  by (induction vids arbitrary: d) (auto simp: get0_def)

lemma gvsb_fields:
  assumes "get_variant_stats_bucket pol agent epoch = (b, pol1)"
  shows "bootstrap_min_trials_per_variant pol1 = bootstrap_min_trials_per_variant pol"
    and "selection_strategy pol1 = selection_strategy pol"
    and "ucb_c pol1 = ucb_c pol"
  using assms by (auto simp: get_variant_stats_bucket_def Let_def split: option.splits)

lemma get0_setdefault0_fun [simp]: "get0 (setdefault0 d vids) = get0 d"
  by (rule ext) simp

lemma sort_key_head_least:
  assumes "sort_key f xs = y # ys"
  shows "y \<in> set xs \<and> (\<forall>x\<in>set xs. f y \<le> f x)"
proof -
  have s: "set (y # ys) = set xs" using assms set_sort[of f xs] by simp
  have "sorted (map f (y # ys))" using assms sorted_sort_key[of f xs] by simp
  then have "\<forall>z\<in>set ys. f y \<le> f z" by simp
  then have "\<forall>z\<in>set (y # ys). f y \<le> f z" by simp
  with s show ?thesis by auto
qed

lemma sort_key_eq_Nil: "(sort_key f xs = []) = (xs = [])"
proof -
  have "length (sort_key f xs) = length xs" by (rule length_sort)
  then show ?thesis by (metis length_0_conv)
qed

lemma ucb_score_spec:
  "ucb_score fl (ucb_c pol) (setdefault0 (clean_passes b) vids) (setdefault0 (attempts b) vids)
      (sum_list (map (get0 (setdefault0 (attempts b) vids)) vids)) v
   = spec_ucb_score fl pol b vids v"
  by (simp add: ucb_score_def spec_ucb_score_def mean_clean_def)

lemma select_in_bucket_ucb1:
  assumes ne: "vids \<noteq> []"
    and boot: "\<forall>v\<in>set vids. bootstrap_min_trials_per_variant pol \<le> get0 (attempts b) v"
    and strat: "normal_strategy (selection_strategy pol) = ''ucb1''"
  shows "\<exists>chosen b'. select_in_bucket fl pol b vids = Inr (chosen, b')
           \<and> chosen \<in> set vids
           \<and> (\<forall>v\<in>set vids. spec_ucb_score fl pol b vids v \<le> spec_ucb_score fl pol b vids chosen)
           \<and> (\<forall>v\<in>set vids. spec_ucb_score fl pol b vids v = spec_ucb_score fl pol b vids chosen
                  \<longrightarrow> chosen \<le> v)"
proof -
  let ?att = "setdefault0 (attempts b) vids"
  let ?cp = "setdefault0 (clean_passes b) vids"
  let ?sc = "\<lambda>v. ucb_score fl (ucb_c pol) ?cp ?att (sum_list (map (get0 ?att) vids)) v"
  let ?scored = "map (\<lambda>v. (?sc v, v)) vids"
  let ?key = "\<lambda>x::real \<times> string. (- fst x, snd x)"
  have nb: "\<not> list_ex (\<lambda>v. get0 ?att v < bootstrap_min_trials_per_variant pol) vids"
    using boot by (auto simp: list_ex_iff)
  have "?scored \<noteq> []" using ne by simp
  then have "sort_key ?key ?scored \<noteq> []" by (simp only: sort_key_eq_Nil not_False_eq_True)
  then obtain y ys where srt: "sort_key ?key ?scored = y # ys"
    by (cases "sort_key ?key ?scored") simp_all
  from sort_key_head_least[OF srt]
  have yin: "y \<in> set ?scored" and least: "\<forall>x\<in>set ?scored. ?key y \<le> ?key x" by auto
  from yin obtain c where c: "c \<in> set vids" and y: "y = (?sc c, c)" by auto
  have sel: "select_in_bucket fl pol b vids =
      Inr (c, b\<lparr>attempts := ?att, passes := setdefault0 (passes b) vids, clean_passes := ?cp,
                bucket_selection_strategy := Some ''ucb1''\<rparr>)"
    using nb strat srt y by (simp add: select_in_bucket_def Let_def)
  have le: "\<forall>v\<in>set vids. (- ?sc c, c) \<le> (- ?sc v, v)"
    using least y by auto
  have max: "\<forall>v\<in>set vids. ?sc v \<le> ?sc c"
    using le by (auto simp: less_eq_prod_def)
  have tie: "\<forall>v\<in>set vids. ?sc v = ?sc c \<longrightarrow> c \<le> v"
    using le by (auto simp: less_eq_prod_def)
  from max tie have "\<forall>v\<in>set vids. spec_ucb_score fl pol b vids v \<le> spec_ucb_score fl pol b vids c"
    and "\<forall>v\<in>set vids. spec_ucb_score fl pol b vids v = spec_ucb_score fl pol b vids c \<longrightarrow> c \<le> v"
    unfolding ucb_score_spec by simp_all
  with sel c show ?thesis
    by (intro exI[of _ c] exI[of _ "b\<lparr>attempts := ?att, passes := setdefault0 (passes b) vids,
        clean_passes := ?cp, bucket_selection_strategy := Some ''ucb1''\<rparr>"] conjI)
qed

lemma rr_next_nonempty:
  assumes "vids \<noteq> []"
  shows "rr_next b vids =
           Inr (vids ! nat ((last_rr_index b + 1) mod int (length vids)),
                b\<lparr>last_rr_index := (last_rr_index b + 1) mod int (length vids)\<rparr>)"
  using assms by (simp add: rr_next_def Let_def)

lemma select_in_bucket_bootstrap:
  assumes "v \<in> set vids" and "get0 (attempts b) v < bootstrap_min_trials_per_variant pol"
  shows "select_in_bucket fl pol b vids =
           rr_next (b\<lparr>attempts := setdefault0 (attempts b) vids,
                      passes := setdefault0 (passes b) vids,
                      clean_passes := setdefault0 (clean_passes b) vids\<rparr>) vids"
proof -
  have "list_ex (\<lambda>v. get0 (setdefault0 (attempts b) vids) v < bootstrap_min_trials_per_variant pol) vids"
    using assms by (auto simp: list_ex_iff)
  then show ?thesis by (simp add: select_in_bucket_def Let_def)
qed

text \<open>
  C4. Whenever some variant of the list has fewer attempts than
  \<^verbatim>\<open>bootstrap_min_trials_per_variant\<close>, \<^verbatim>\<open>select_variant\<close> returns the variant at
  index \<open>(last_rr_index + 1) mod length\<close> of the full list and stores that index as the
  new \<^verbatim>\<open>last_rr_index\<close> of the bucket. Nothing in the hypotheses or the result reads
  the strategy name of the policy.
\<close>

theorem select_variant_bootstrap:
  assumes bk: "get_variant_stats_bucket pol agent epoch = (b, pol1)"
    and v: "v \<in> set variant_ids_sorted"
    and low: "get0 (attempts b) v < bootstrap_min_trials_per_variant pol"
  shows "\<exists>pol' b'.
           select_variant fl pol agent epoch variant_ids_sorted =
             Inr (variant_ids_sorted ! nat ((last_rr_index b + 1) mod int (length variant_ids_sorted)), pol')
         \<and> stats pol' (policy_key agent epoch) = Some b'
         \<and> last_rr_index b' = (last_rr_index b + 1) mod int (length variant_ids_sorted)
         \<and> 0 \<le> last_rr_index b' \<and> last_rr_index b' < int (length variant_ids_sorted)"
proof -
  have ne: "variant_ids_sorted \<noteq> []" using v by auto
  have low1: "get0 (attempts b) v < bootstrap_min_trials_per_variant pol1"
    using low gvsb_fields(1)[OF bk] by simp
  show ?thesis
    using ne by (simp add: select_variant_def bk select_in_bucket_bootstrap[OF v low1]
        rr_next_nonempty)
qed

theorem select_variant_bootstrap_witness:
  "get_variant_stats_bucket (DEFAULT_POLICY\<lparr>selection_strategy := ''rr_elimination''\<rparr>) ''qa'' ''e1''
     = (fresh_bucket, DEFAULT_POLICY\<lparr>selection_strategy := ''rr_elimination'',
                                      stats := [policy_key ''qa'' ''e1'' \<mapsto> fresh_bucket]\<rparr>)
   \<and> ''v2'' \<in> set [''v1'', ''v2'']
   \<and> get0 (attempts fresh_bucket) ''v2''
       < bootstrap_min_trials_per_variant (DEFAULT_POLICY\<lparr>selection_strategy := ''rr_elimination''\<rparr>)
   \<and> (\<exists>pol'. select_variant exact_arith (DEFAULT_POLICY\<lparr>selection_strategy := ''rr_elimination''\<rparr>)
                 ''qa'' ''e1'' [''v1'', ''v2''] = Inr (''v1'', pol'))"
proof -
  let ?P = "DEFAULT_POLICY\<lparr>selection_strategy := ''rr_elimination''\<rparr>"
  have h1: "get_variant_stats_bucket ?P ''qa'' ''e1''
     = (fresh_bucket, DEFAULT_POLICY\<lparr>selection_strategy := ''rr_elimination'',
                                      stats := [policy_key ''qa'' ''e1'' \<mapsto> fresh_bucket]\<rparr>)"
    by (simp add: get_variant_stats_bucket_def DEFAULT_POLICY_def Let_def)
  have h2: "''v2'' \<in> set [''v1'', ''v2'']" by simp
  have h3: "get0 (attempts fresh_bucket) ''v2'' < bootstrap_min_trials_per_variant ?P"
    by (simp add: get0_def fresh_bucket_def DEFAULT_POLICY_def)
  have "\<exists>pol'. select_variant exact_arith ?P ''qa'' ''e1'' [''v1'', ''v2''] = Inr (''v1'', pol')"
    using select_variant_bootstrap[OF h1 h2 h3] by (auto simp: fresh_bucket_def)
  with h1 h2 h3 show ?thesis by (intro conjI)
qed

text \<open>
  C7. Once no variant needs bootstrap and the strategy is \<^verbatim>\<open>ucb1\<close>, the selector returns
  a variant of the list whose score
  \<open>clean_passes(v)/max(1, attempts(v)) + c * sqrt(ln(max(1, total_attempts))/max(1, attempts(v)))\<close>
  is the maximum over the list, and which is the least variant id among those of maximal
  score; when all variants have equal attempts and clean passes, it is the least variant id
  of the list. The score is the float the source computes: each operation of the formula
  is the machine's, so variants whose exact scores differ by less than the rounding are
  tied, and the least id among them is returned.
\<close>

theorem select_variant_ucb1:
  assumes bk: "get_variant_stats_bucket pol agent epoch = (b, pol1)"
    and ne: "variant_ids_sorted \<noteq> []"
    and boot: "\<forall>v\<in>set variant_ids_sorted.
                 bootstrap_min_trials_per_variant pol \<le> get0 (attempts b) v"
    and strat: "selection_strategy pol = ''ucb1''"
  shows "\<exists>chosen pol'.
           select_variant fl pol agent epoch variant_ids_sorted = Inr (chosen, pol')
         \<and> chosen \<in> set variant_ids_sorted
         \<and> (\<forall>v\<in>set variant_ids_sorted.
               spec_ucb_score fl pol b variant_ids_sorted v
                 \<le> spec_ucb_score fl pol b variant_ids_sorted chosen)
         \<and> (\<forall>v\<in>set variant_ids_sorted.
               spec_ucb_score fl pol b variant_ids_sorted v
                 = spec_ucb_score fl pol b variant_ids_sorted chosen \<longrightarrow> chosen \<le> v)
         \<and> ((\<forall>v\<in>set variant_ids_sorted. \<forall>w\<in>set variant_ids_sorted.
                 get0 (attempts b) v = get0 (attempts b) w
               \<and> get0 (clean_passes b) v = get0 (clean_passes b) w)
              \<longrightarrow> (\<forall>v\<in>set variant_ids_sorted. chosen \<le> v))"
proof -
  have boot1: "\<forall>v\<in>set variant_ids_sorted.
                 bootstrap_min_trials_per_variant pol1 \<le> get0 (attempts b) v"
    using boot gvsb_fields(1)[OF bk] by simp
  have strat1: "normal_strategy (selection_strategy pol1) = ''ucb1''"
    using strat gvsb_fields(2)[OF bk] by (simp add: normal_strategy_def)
  have sc: "spec_ucb_score fl pol1 b variant_ids_sorted = spec_ucb_score fl pol b variant_ids_sorted"
    using gvsb_fields(3)[OF bk] by (simp add: spec_ucb_score_def fun_eq_iff)
  have ex: "\<exists>chosen b'. select_in_bucket fl pol1 b variant_ids_sorted = Inr (chosen, b')
           \<and> chosen \<in> set variant_ids_sorted
           \<and> (\<forall>v\<in>set variant_ids_sorted. spec_ucb_score fl pol b variant_ids_sorted v
                   \<le> spec_ucb_score fl pol b variant_ids_sorted chosen)
           \<and> (\<forall>v\<in>set variant_ids_sorted. spec_ucb_score fl pol b variant_ids_sorted v
                   = spec_ucb_score fl pol b variant_ids_sorted chosen \<longrightarrow> chosen \<le> v)"
    using select_in_bucket_ucb1[OF ne boot1 strat1, where fl = fl] unfolding sc .
  then obtain chosen b' where
    sel: "select_in_bucket fl pol1 b variant_ids_sorted = Inr (chosen, b')"
    and cin: "chosen \<in> set variant_ids_sorted"
    and mx: "\<forall>v\<in>set variant_ids_sorted.
               spec_ucb_score fl pol b variant_ids_sorted v
                 \<le> spec_ucb_score fl pol b variant_ids_sorted chosen"
    and tie: "\<forall>v\<in>set variant_ids_sorted.
               spec_ucb_score fl pol b variant_ids_sorted v
                 = spec_ucb_score fl pol b variant_ids_sorted chosen \<longrightarrow> chosen \<le> v"
    by (elim exE conjE)
  have eq: "(\<forall>v\<in>set variant_ids_sorted. \<forall>w\<in>set variant_ids_sorted.
                 get0 (attempts b) v = get0 (attempts b) w
               \<and> get0 (clean_passes b) v = get0 (clean_passes b) w)
              \<longrightarrow> (\<forall>v\<in>set variant_ids_sorted. chosen \<le> v)"
  proof (intro impI ballI)
    fix v assume same: "\<forall>v\<in>set variant_ids_sorted. \<forall>w\<in>set variant_ids_sorted.
                 get0 (attempts b) v = get0 (attempts b) w
               \<and> get0 (clean_passes b) v = get0 (clean_passes b) w"
      and v: "v \<in> set variant_ids_sorted"
    from same v cin have "get0 (attempts b) v = get0 (attempts b) chosen"
      and "get0 (clean_passes b) v = get0 (clean_passes b) chosen" by blast+
    then have "spec_ucb_score fl pol b variant_ids_sorted v = spec_ucb_score fl pol b variant_ids_sorted chosen"
      by (simp add: spec_ucb_score_def)
    then show "chosen \<le> v" using tie v by blast
  qed
  have "select_variant fl pol agent epoch variant_ids_sorted =
          Inr (chosen, pol1\<lparr>stats := (stats pol1)(policy_key agent epoch \<mapsto> b')\<rparr>)"
    by (simp add: select_variant_def bk sel)
  with cin mx tie eq show ?thesis
    by (intro exI[of _ chosen] exI[of _ "pol1\<lparr>stats := (stats pol1)(policy_key agent epoch \<mapsto> b')\<rparr>"] conjI)
qed

theorem select_variant_ucb1_witness:
  "get_variant_stats_bucket ucb_example_policy ''qa'' ''e1''
     = (ucb_example_bucket, ucb_example_policy)
   \<and> [''v2'', ''v1''] \<noteq> []
   \<and> bootstrap_min_trials_per_variant ucb_example_policy
         \<le> get0 (attempts ucb_example_bucket) ''v2''
   \<and> bootstrap_min_trials_per_variant ucb_example_policy
         \<le> get0 (attempts ucb_example_bucket) ''v1''
   \<and> selection_strategy ucb_example_policy = ''ucb1''
   \<and> (\<exists>pol'. select_variant exact_arith ucb_example_policy ''qa'' ''e1'' [''v2'', ''v1'']
                 = Inr (''v1'', pol'))"
proof -
  have h3a: "bootstrap_min_trials_per_variant ucb_example_policy
               \<le> get0 (attempts ucb_example_bucket) ''v2''"
    by (simp add: get0_def ucb_example_policy_def ucb_example_bucket_def DEFAULT_POLICY_def)
  have h3b: "bootstrap_min_trials_per_variant ucb_example_policy
               \<le> get0 (attempts ucb_example_bucket) ''v1''"
    by (simp add: get0_def ucb_example_policy_def ucb_example_bucket_def DEFAULT_POLICY_def)
  have h1: "get_variant_stats_bucket ucb_example_policy ''qa'' ''e1''
              = (ucb_example_bucket, ucb_example_policy)"
    by (simp add: get_variant_stats_bucket_def ucb_example_policy_def Let_def)
  have h2: "[''v2'', ''v1''] \<noteq> []" by simp
  have h3: "\<forall>v\<in>set [''v2'', ''v1''].
              bootstrap_min_trials_per_variant ucb_example_policy
                \<le> get0 (attempts ucb_example_bucket) v"
    using h3a h3b by simp
  have h4: "selection_strategy ucb_example_policy = ''ucb1''"
    by (simp add: ucb_example_policy_def DEFAULT_POLICY_def)
  have same: "\<forall>v\<in>set [''v2'', ''v1'']. \<forall>w\<in>set [''v2'', ''v1''].
                 get0 (attempts ucb_example_bucket) v = get0 (attempts ucb_example_bucket) w
               \<and> get0 (clean_passes ucb_example_bucket) v
                   = get0 (clean_passes ucb_example_bucket) w"
    by (simp add: get0_def ucb_example_bucket_def)
  from select_variant_ucb1[OF h1 h2 h3 h4, of exact_arith] obtain chosen pol' where
    sel: "select_variant exact_arith ucb_example_policy ''qa'' ''e1'' [''v2'', ''v1''] = Inr (chosen, pol')"
    and cin: "chosen \<in> set [''v2'', ''v1'']"
    and least: "(\<forall>v\<in>set [''v2'', ''v1'']. \<forall>w\<in>set [''v2'', ''v1''].
                 get0 (attempts ucb_example_bucket) v = get0 (attempts ucb_example_bucket) w
               \<and> get0 (clean_passes ucb_example_bucket) v
                   = get0 (clean_passes ucb_example_bucket) w)
              \<longrightarrow> (\<forall>v\<in>set [''v2'', ''v1'']. chosen \<le> v)"
    by (elim exE conjE)
  from least same have all: "\<forall>v\<in>set [''v2'', ''v1'']. chosen \<le> v" by (rule mp)
  have "''v1'' \<in> set [''v2'', ''v1'']" by simp
  with all have le: "chosen \<le> ''v1''" by (rule bspec)
  from cin have "chosen = ''v2'' \<or> chosen = ''v1''" by simp
  then have "chosen = ''v1''"
  proof
    assume "chosen = ''v2''"
    with le have "''v2'' \<le> ''v1''" by (simp only:)
    then show ?thesis by simp
  qed
  with sel have "select_variant exact_arith ucb_example_policy ''qa'' ''e1'' [''v2'', ''v1''] = Inr (''v1'', pol')"
    by (simp only:)
  then have "\<exists>pol'. select_variant exact_arith ucb_example_policy ''qa'' ''e1'' [''v2'', ''v1'']
                 = Inr (''v1'', pol')" by (rule exI)
  with h1 h2 h3a h3b h4 show ?thesis by (intro conjI)
qed

lemma update_in_bucket_counters:
  "attempts (update_in_bucket fl pol b vid passed clean) = (attempts b)(vid \<mapsto> get0 (attempts b) vid + 1)"
  "passes (update_in_bucket fl pol b vid passed clean) =
     (if passed then (passes b)(vid \<mapsto> get0 (passes b) vid + 1) else passes b)"
  "clean_passes (update_in_bucket fl pol b vid passed clean) =
     (if clean then (clean_passes b)(vid \<mapsto> get0 (clean_passes b) vid + 1) else clean_passes b)"
  by (simp_all add: update_in_bucket_def Let_def)

lemma bucket_of_update:
  "bucket_of (update_variant_stats fl pol agent epoch vid passed clean r) k =
     (if k = policy_key agent epoch
      then update_in_bucket fl (snd (get_variant_stats_bucket pol agent epoch))
             (bucket_of pol k) vid passed clean
      else bucket_of pol k)"
  by (auto simp: update_variant_stats_def get_variant_stats_bucket_def bucket_of_def Let_def
      split: option.splits)

text \<open>
  C8. For every bucket of the policy (a key without a stored bucket reads as the fresh,
  all-zero bucket): if \<open>clean_passes[v] \<le> passes[v] \<le> attempts[v]\<close> holds for every
  variant before the update that \<^verbatim>\<open>run_step_once\<close> performs (with
  \<^verbatim>\<open>clean = passed and step_attempt == 0\<close>), it holds after it, and none of the three
  counters decreases.
\<close>

theorem update_variant_stats_counters:
  assumes inv: "\<forall>v. get0 (clean_passes (bucket_of pol k)) v \<le> get0 (passes (bucket_of pol k)) v
                  \<and> get0 (passes (bucket_of pol k)) v \<le> get0 (attempts (bucket_of pol k)) v"
  shows "(\<forall>v. get0 (clean_passes (bucket_of (update_variant_stats fl pol agent epoch variant_id
                    passed (passed \<and> step_attempt = 0) step_attempt) k)) v
               \<le> get0 (passes (bucket_of (update_variant_stats fl pol agent epoch variant_id
                    passed (passed \<and> step_attempt = 0) step_attempt) k)) v
             \<and> get0 (passes (bucket_of (update_variant_stats fl pol agent epoch variant_id
                    passed (passed \<and> step_attempt = 0) step_attempt) k)) v
               \<le> get0 (attempts (bucket_of (update_variant_stats fl pol agent epoch variant_id
                    passed (passed \<and> step_attempt = 0) step_attempt) k)) v)
       \<and> (\<forall>v. get0 (attempts (bucket_of pol k)) v
               \<le> get0 (attempts (bucket_of (update_variant_stats fl pol agent epoch variant_id
                    passed (passed \<and> step_attempt = 0) step_attempt) k)) v
             \<and> get0 (passes (bucket_of pol k)) v
               \<le> get0 (passes (bucket_of (update_variant_stats fl pol agent epoch variant_id
                    passed (passed \<and> step_attempt = 0) step_attempt) k)) v
             \<and> get0 (clean_passes (bucket_of pol k)) v
               \<le> get0 (clean_passes (bucket_of (update_variant_stats fl pol agent epoch variant_id
                    passed (passed \<and> step_attempt = 0) step_attempt) k)) v)"
proof (cases "k = policy_key agent epoch")
  case False
  then show ?thesis using inv by (simp add: bucket_of_update)
next
  case True
  let ?b = "bucket_of pol k"
  let ?b' = "bucket_of (update_variant_stats fl pol agent epoch variant_id
                    passed (passed \<and> step_attempt = 0) step_attempt) k"
  have g: "\<And>d x v. get0 (d(x \<mapsto> get0 d x + 1)) v = (if v = x then get0 d x + 1 else get0 d v)"
    by (simp add: get0_def)
  have att: "\<And>v. get0 (attempts ?b') v = (if v = variant_id then get0 (attempts ?b) v + 1 else get0 (attempts ?b) v)"
    using True by (simp add: bucket_of_update update_in_bucket_counters g)
  have pas: "\<And>v. get0 (passes ?b') v = (if v = variant_id \<and> passed then get0 (passes ?b) v + 1 else get0 (passes ?b) v)"
    using True by (simp add: bucket_of_update update_in_bucket_counters g)
  have cp: "\<And>v. get0 (clean_passes ?b') v = (if v = variant_id \<and> passed \<and> step_attempt = 0 then get0 (clean_passes ?b) v + 1 else get0 (clean_passes ?b) v)"
    using True by (simp add: bucket_of_update update_in_bucket_counters g)
  have one: "\<And>v. get0 (clean_passes ?b') v \<le> get0 (passes ?b') v \<and> get0 (passes ?b') v \<le> get0 (attempts ?b') v"
  proof -
    fix v
    from inv have "get0 (clean_passes ?b) v \<le> get0 (passes ?b) v" "get0 (passes ?b) v \<le> get0 (attempts ?b) v"
      by blast+
    then show "get0 (clean_passes ?b') v \<le> get0 (passes ?b') v \<and> get0 (passes ?b') v \<le> get0 (attempts ?b') v"
      unfolding att pas cp by (auto split: if_splits)
  qed
  have two: "\<And>v. get0 (attempts ?b) v \<le> get0 (attempts ?b') v \<and> get0 (passes ?b) v \<le> get0 (passes ?b') v
             \<and> get0 (clean_passes ?b) v \<le> get0 (clean_passes ?b') v"
    unfolding att pas cp by simp
  show ?thesis using one two by blast
qed

theorem update_variant_stats_counters_witness:
  "(\<forall>v. get0 (clean_passes (bucket_of DEFAULT_POLICY (policy_key ''qa'' ''e1''))) v
            \<le> get0 (passes (bucket_of DEFAULT_POLICY (policy_key ''qa'' ''e1''))) v
        \<and> get0 (passes (bucket_of DEFAULT_POLICY (policy_key ''qa'' ''e1''))) v
            \<le> get0 (attempts (bucket_of DEFAULT_POLICY (policy_key ''qa'' ''e1''))) v)
   \<and> get0 (clean_passes (bucket_of (update_variant_stats exact_arith DEFAULT_POLICY ''qa'' ''e1'' ''v1''
              True (True \<and> (0::int) = 0) 0) (policy_key ''qa'' ''e1''))) ''v1''
       \<le> get0 (passes (bucket_of (update_variant_stats exact_arith DEFAULT_POLICY ''qa'' ''e1'' ''v1''
              True (True \<and> (0::int) = 0) 0) (policy_key ''qa'' ''e1''))) ''v1''
   \<and> get0 (attempts (bucket_of (update_variant_stats exact_arith DEFAULT_POLICY ''qa'' ''e1'' ''v1''
              True (True \<and> (0::int) = 0) 0) (policy_key ''qa'' ''e1''))) ''v1'' = 1"
proof -
  have h: "\<forall>v. get0 (clean_passes (bucket_of DEFAULT_POLICY (policy_key ''qa'' ''e1''))) v
            \<le> get0 (passes (bucket_of DEFAULT_POLICY (policy_key ''qa'' ''e1''))) v
        \<and> get0 (passes (bucket_of DEFAULT_POLICY (policy_key ''qa'' ''e1''))) v
            \<le> get0 (attempts (bucket_of DEFAULT_POLICY (policy_key ''qa'' ''e1''))) v"
    by (simp add: bucket_of_def DEFAULT_POLICY_def fresh_bucket_def get0_def)
  have one: "get0 (attempts (bucket_of (update_variant_stats exact_arith DEFAULT_POLICY ''qa'' ''e1'' ''v1''
              True (True \<and> (0::int) = 0) 0) (policy_key ''qa'' ''e1''))) ''v1'' = 1"
    by (simp add: bucket_of_def update_variant_stats_def get_variant_stats_bucket_def
        update_in_bucket_def DEFAULT_POLICY_def fresh_bucket_def get0_def Let_def)
  from update_variant_stats_counters[OF h, of exact_arith "''qa''" "''e1''" "''v1''" True 0]
  have "get0 (clean_passes (bucket_of (update_variant_stats exact_arith DEFAULT_POLICY ''qa'' ''e1'' ''v1''
              True (True \<and> (0::int) = 0) 0) (policy_key ''qa'' ''e1''))) ''v1''
       \<le> get0 (passes (bucket_of (update_variant_stats exact_arith DEFAULT_POLICY ''qa'' ''e1'' ''v1''
              True (True \<and> (0::int) = 0) 0) (policy_key ''qa'' ''e1''))) ''v1''"
    by blast
  with h one show ?thesis by (intro conjI)
qed

lemma fresh_bucket_counters:
  "get0 (clean_passes fresh_bucket) v = 0 \<and> get0 (passes fresh_bucket) v = 0
   \<and> get0 (attempts fresh_bucket) v = 0"
  by (simp add: fresh_bucket_def get0_def)

subsection \<open>Guardrails\<close>

lemma prompt_file_findings_forbidden:
  assumes "bad \<in> set FORBIDDEN_SUBSTRINGS \<or> bad = ''disable gating'' \<or> bad = ''proceed on failure''"
    and "contains bad (str_lower raw)"
  shows "prompt_file_findings (p, raw) \<noteq> []"
  using assms by (auto simp: prompt_file_findings_def Let_def filter_empty_conv)

lemma skill_file_findings_forbidden:
  assumes "bad \<in> set FORBIDDEN_SUBSTRINGS" and "contains bad (str_lower txt)"
  shows "skill_file_findings (p, txt) \<noteq> []"
  using assms by (auto simp: skill_file_findings_def Let_def filter_empty_conv)

text \<open>
  What the guardrails do report: in a prompt file each of the seven phrases, in a file
  named \<^verbatim>\<open>SKILL.md\<close> each of the five phrases of \<^verbatim>\<open>FORBIDDEN_SUBSTRINGS\<close>.
\<close>

lemma guardrails_prompt_reported:
  assumes "(p, raw) \<in> set prompt_files"
    and "bad \<in> set FORBIDDEN_SUBSTRINGS \<or> bad = ''disable gating'' \<or> bad = ''proceed on failure''"
    and "contains bad (str_lower raw)"
  shows "\<not> ok (validate_design_b_prompt_skill_guardrails prompt_files skill_files)"
  using assms(1) prompt_file_findings_forbidden[OF assms(2,3), of p]
  by (auto simp: validate_design_b_prompt_skill_guardrails_def Let_def)

lemma guardrails_skill_reported:
  assumes "(p, txt) \<in> set skill_files" and "basename p = ''SKILL.md''"
    and "bad \<in> set FORBIDDEN_SUBSTRINGS" and "contains bad (str_lower txt)"
  shows "\<not> ok (validate_design_b_prompt_skill_guardrails prompt_files skill_files)"
  using assms(1,2) skill_file_findings_forbidden[OF assms(3,4), of p]
  by (auto simp: validate_design_b_prompt_skill_guardrails_def Let_def)

text \<open>
  C9. The claim asks for an error on every prompt file and every skill file that contains
  one of seven phrases. For the skill file \<open>skill_example\<close>, whose lower-cased content
  contains the phrase \<^verbatim>\<open>disable gating\<close>, the validator returns an ok result with no
  error code: the two phrases \<^verbatim>\<open>disable gating\<close> and \<^verbatim>\<open>proceed on failure\<close> are
  checked for prompt files only.
\<close>

theorem guardrails_skill_gating_phrase_unreported:
  "contains ''disable gating'' (str_lower (snd skill_example))
   \<and> validate_design_b_prompt_skill_guardrails [] [skill_example]
       = \<lparr> ok = True, error_codes = [], messages = [] \<rparr>"
  by code_simp

subsection \<open>The gate and the revert\<close>

text \<open>
  The gate on the three step attempts of the worked examples, which no float operation
  enters.
\<close>

lemma gate_examples:
  "(\<not> isl (gate_example fl dirty_pre violating_post)
    \<and> invariant_errors (fst (projr (gate_example fl dirty_pre violating_post))) = []
    \<and> cap_errors (fst (projr (gate_example fl dirty_pre violating_post))) = []
    \<and> allowlist_errors (fst (projr (gate_example fl dirty_pre violating_post)))
        = [''Path not allowlisted for designer: backend/server.js'']
    \<and> changed_paths (fst (projr (gate_example fl dirty_pre violating_post))) = [''REQUIREMENTS.md'', ''backend/server.js'']
    \<and> new_paths (fst (projr (gate_example fl dirty_pre violating_post))) = [''backend/server.js'']
    \<and> tracked_restore_paths (fst (projr (gate_example fl dirty_pre violating_post))) = [''REQUIREMENTS.md'']
    \<and> map_of (worktree dirty_pre) ''REQUIREMENTS.md'' = Some ''second''
    \<and> map_of (worktree (snd (projr (gate_example fl dirty_pre violating_post)))) ''REQUIREMENTS.md'' = Some ''first''
    \<and> map_of (worktree (snd (projr (gate_example fl dirty_pre violating_post)))) ''backend/server.js'' = None)
   \<and> (map_of (worktree untracked_pre) ''REQUIREMENTS.md'' = Some ''second''
      \<and> isl (gate_example fl untracked_pre untracked_post)
      \<and> projl (gate_example fl untracked_pre untracked_post) = OrchestratorError ''E_CMD_FAILED'')
   \<and> (\<not> isl (gate_example fl committed_pre staged_post)
      \<and> invariant_errors (fst (projr (gate_example fl committed_pre staged_post)))
          = [''git diff --cached not empty after codex run'',
             ''.git/index changed during codex run'']
      \<and> allowlist_errors (fst (projr (gate_example fl committed_pre staged_post))) = []
      \<and> changed_paths (fst (projr (gate_example fl committed_pre staged_post))) = [''REQUIREMENTS.md'']
      \<and> tracked_restore_paths (fst (projr (gate_example fl committed_pre staged_post))) = [''REQUIREMENTS.md'']
      \<and> map_of (worktree committed_pre) ''REQUIREMENTS.md'' = Some ''first''
      \<and> map_of (worktree (snd (projr (gate_example fl committed_pre staged_post)))) ''REQUIREMENTS.md'' = Some ''third'')"
  by code_simp

text \<open>
  C1 requires that, after the revert of a step attempt with an invariant, allowlist or
  cap error, every modified or deleted path has its pre-step content and every created
  path is absent. \<^verbatim>\<open>deterministic_revert\<close> keeps no copy of the pre-step contents: it
  restores from the index. Evaluated on three step attempts of the designer step:

  \<^item> the document carries the uncommitted edit of an earlier accepted step
    (\<open>second\<close>), the agent rewrites it and creates a file outside the allowlist: the
    revert runs and the document ends with the committed content \<open>first\<close>, so the
    earlier step's accepted work is lost;

  \<^item> the document was created by an earlier accepted step and is not tracked: the restore
    command fails, \<^verbatim>\<open>E_CMD_FAILED\<close> is raised, and nothing is reverted;

  \<^item> the agent stages its edit of the committed document: the gate reports the staged
    path and the changed index, the revert runs, lists the document as restored, and
    leaves the agent's content \<open>third\<close> in place of the pre-step content \<open>first\<close>.
\<close>

theorem gate_window_revert_not_pre_step:
  "(\<not> isl dirty_gate
    \<and> invariant_errors (fst (projr dirty_gate)) = []
    \<and> cap_errors (fst (projr dirty_gate)) = []
    \<and> allowlist_errors (fst (projr dirty_gate))
        = [''Path not allowlisted for designer: backend/server.js'']
    \<and> changed_paths (fst (projr dirty_gate)) = [''REQUIREMENTS.md'', ''backend/server.js'']
    \<and> new_paths (fst (projr dirty_gate)) = [''backend/server.js'']
    \<and> tracked_restore_paths (fst (projr dirty_gate)) = [''REQUIREMENTS.md'']
    \<and> map_of (worktree dirty_pre) ''REQUIREMENTS.md'' = Some ''second''
    \<and> map_of (worktree (snd (projr dirty_gate))) ''REQUIREMENTS.md'' = Some ''first''
    \<and> map_of (worktree (snd (projr dirty_gate))) ''backend/server.js'' = None)
   \<and> (map_of (worktree untracked_pre) ''REQUIREMENTS.md'' = Some ''second''
      \<and> isl untracked_gate
      \<and> projl untracked_gate = OrchestratorError ''E_CMD_FAILED'')
   \<and> (\<not> isl staged_gate
      \<and> invariant_errors (fst (projr staged_gate))
          = [''git diff --cached not empty after codex run'',
             ''.git/index changed during codex run'']
      \<and> allowlist_errors (fst (projr staged_gate)) = []
      \<and> changed_paths (fst (projr staged_gate)) = [''REQUIREMENTS.md'']
      \<and> tracked_restore_paths (fst (projr staged_gate)) = [''REQUIREMENTS.md'']
      \<and> map_of (worktree committed_pre) ''REQUIREMENTS.md'' = Some ''first''
      \<and> map_of (worktree (snd (projr staged_gate))) ''REQUIREMENTS.md'' = Some ''third'')"
  unfolding dirty_gate_def untracked_gate_def staged_gate_def by (rule gate_examples)

subsection \<open>Selection never fails on a non-empty list\<close>

lemma list_index_mem: "x \<in> set xs \<Longrightarrow> \<exists>i. list_index xs x = Inr i"
  by (induction xs) auto

lemma rr_next_total:
  assumes "vids \<noteq> []"
  shows "\<exists>c b'. rr_next b vids = Inr (c, b') \<and> c \<in> set vids"
proof -
  let ?i = "(last_rr_index b + 1) mod int (length vids)"
  have "0 \<le> ?i" "?i < int (length vids)" using assms by simp_all
  then have "nat ?i < length vids" by linarith
  then have "vids ! nat ?i \<in> set vids" by (rule nth_mem)
  then show ?thesis using assms by (simp add: rr_next_def Let_def)
qed

lemma sort_key_head_mem:
  assumes "xs \<noteq> []"
  shows "\<exists>y ys. sort_key f xs = y # ys \<and> y \<in> set xs"
proof -
  have "sort_key f xs \<noteq> []" using assms by (simp add: sort_key_eq_Nil)
  then obtain y ys where e: "sort_key f xs = y # ys" by (cases "sort_key f xs") simp_all
  then have "y \<in> set (sort_key f xs)" by simp
  then have "y \<in> set xs" by simp
  with e show ?thesis by blast
qed

lemma select_in_bucket_total:
  assumes ne: "vids \<noteq> []"
  shows "\<exists>c b'. select_in_bucket fl pol b vids = Inr (c, b') \<and> c \<in> set vids"
proof -
  let ?att = "setdefault0 (attempts b) vids"
  let ?pas = "setdefault0 (passes b) vids"
  let ?cp = "setdefault0 (clean_passes b) vids"
  let ?b1 = "b\<lparr>attempts := ?att, passes := ?pas, clean_passes := ?cp\<rparr>"
  let ?strategy = "normal_strategy (selection_strategy pol)"
  let ?b2 = "?b1\<lparr>bucket_selection_strategy := Some ?strategy\<rparr>"
  show ?thesis
  proof (cases "list_ex (\<lambda>v. get0 ?att v < bootstrap_min_trials_per_variant pol) vids")
    case True
    then have "select_in_bucket fl pol b vids = rr_next ?b1 vids"
      by (simp add: select_in_bucket_def Let_def)
    then show ?thesis using rr_next_total[OF ne, of ?b1] by simp
  next
    case nb: False
    show ?thesis
    proof (cases "?strategy = ''ucb1''")
      case True
      let ?scored = "map (\<lambda>v. (ucb_score fl (ucb_c pol) ?cp ?att (sum_list (map (get0 ?att) vids)) v, v)) vids"
      have "?scored \<noteq> []" using ne by simp
      from sort_key_head_mem[OF this, of "\<lambda>x. (- fst x, snd x)"]
      obtain y ys where e: "sort_key (\<lambda>x. (- fst x, snd x)) ?scored = y # ys"
        and yin: "y \<in> set ?scored" by (elim exE conjE)
      from yin have "snd y \<in> set vids" by auto
      moreover have "select_in_bucket fl pol b vids = Inr (snd y, ?b2)"
        using nb True e by (simp add: select_in_bucket_def Let_def)
      ultimately show ?thesis by simp
    next
      case nu: False
      show ?thesis
      proof (cases "?strategy = ''explore_then_commit''")
        case True
        let ?cm = "commit ?b2"
        show ?thesis
        proof (cases "active ?cm \<and> remaining ?cm > 0 \<and> str_opt (best ?cm) \<in> set vids")
          case c: True
          have "select_in_bucket fl pol b vids =
                  Inr (str_opt (best ?cm), ?b2\<lparr>commit := ?cm\<lparr>remaining := remaining ?cm - 1\<rparr>\<rparr>)"
            using nb nu True c by (simp add: select_in_bucket_def Let_def)
          then show ?thesis using c by simp
        next
          case c: False
          from sort_key_head_mem[OF ne, of "\<lambda>v. (- mean_clean fl ?cp ?att v, v)"]
          obtain y ys where e: "sort_key (\<lambda>v. (- mean_clean fl ?cp ?att v, v)) vids = y # ys"
            and yin: "y \<in> set vids" by (elim exE conjE)
          have "select_in_bucket fl pol b vids =
                  Inr (y, ?b2\<lparr>commit := ?cm\<lparr>active := True, best := Some y,
                                          remaining := commit_window_runs pol - 1\<rparr>\<rparr>)"
            using nb nu True c e by (auto simp add: select_in_bucket_def Let_def)
          then show ?thesis using yin by simp
        qed
      next
        case ne2: False
        let ?act = "filter (\<lambda>v. v \<notin> set (eliminated ?b2)) vids"
        show ?thesis
        proof (cases "?act = []")
          case True
          then have "select_in_bucket fl pol b vids = rr_next (?b2\<lparr>eliminated := []\<rparr>) vids"
            using nb nu ne2 by (simp add: select_in_bucket_def Let_def)
          then show ?thesis using rr_next_total[OF ne, of "?b2\<lparr>eliminated := []\<rparr>"] by simp
        next
          case an: False
          let ?i = "(last_rr_index ?b2 + 1) mod int (length ?act)"
          have "0 \<le> ?i" "?i < int (length ?act)" using an by simp_all
          then have "nat ?i < length ?act" by linarith
          then have "?act ! nat ?i \<in> set ?act" by (rule nth_mem)
          then have cin: "?act ! nat ?i \<in> set vids" by simp
          from list_index_mem[OF cin] obtain j where j: "list_index vids (?act ! nat ?i) = Inr j" ..
          have "\<exists>b'. select_in_bucket fl pol b vids = Inr (?act ! nat ?i, b')"
            using nb nu ne2 an j by (simp add: select_in_bucket_def Let_def)
          then show ?thesis using cin by blast
        qed
      qed
    qed
  qed
qed

lemma select_variant_total:
  assumes "vids \<noteq> []"
  shows "\<exists>c pol'. select_variant fl pol agent epoch vids = Inr (c, pol') \<and> c \<in> set vids"
proof -
  obtain b pol1 where g: "get_variant_stats_bucket pol agent epoch = (b, pol1)"
    by (cases "get_variant_stats_bucket pol agent epoch")
  from select_in_bucket_total[OF assms, of fl pol1 b] obtain c b' where
    s: "select_in_bucket fl pol1 b vids = Inr (c, b')" and c: "c \<in> set vids" by (elim exE conjE)
  have "select_variant fl pol agent epoch vids =
          Inr (c, pol1\<lparr>stats := (stats pol1)(policy_key agent epoch \<mapsto> b')\<rparr>)"
    by (simp add: select_variant_def g s)
  with c show ?thesis by blast
qed

lemma find_fst_mem:
  "c \<in> set (map fst xs) \<Longrightarrow> \<exists>v. find (\<lambda>v. fst v = c) xs = Some v \<and> fst v = c"
  by (induction xs) auto

lemma scan_variants_cases:
  "scan_variants d = Inl err \<longleftrightarrow>
     (d = NotADirectory \<and> err = NotADirectoryError)
     \<or> (\<exists>files. d = Directory True files
            \<and> (if list_ex (\<lambda>f. ff_id f = None) files then err = ValueError
                else list_ex (\<lambda>f. ff_text f = None) files \<and> err = UnicodeDecodeError))"
  by (cases d) (auto simp: scan_variants_def Let_def list_ex_iff)

lemma prompt_variants_nonempty: "prompt_variants_for_agent r agent design_b \<noteq> Inr []"
  by (simp add: prompt_variants_for_agent_def embedded_variants_def split: sum.splits)

lemma prompt_variants_raises:
  "prompt_variants_for_agent r agent design_b = Inl err \<longleftrightarrow>
     (design_b \<and> scan_variants (prompts_dir r agent) = Inl err)
     \<or> ((\<not> design_b \<or> scan_variants (prompts_dir r agent) = Inr [])
        \<and> scan_variants (templates_dir r agent) = Inl err)"
  by (auto simp: prompt_variants_for_agent_def split: sum.splits)

lemma prompt_variants_embedded:
  assumes "design_b \<longrightarrow> scan_variants (prompts_dir r agent) = Inr []"
    and "scan_variants (templates_dir r agent) = Inr []"
  shows "prompt_variants_for_agent r agent design_b = Inr (embedded_variants agent)"
  using assms by (simp add: prompt_variants_for_agent_def)

lemma sorted_variants_nonempty:
  "prompt_variants_for_agent r agent design_b = Inr vs \<Longrightarrow> map fst (sort_key fst vs) \<noteq> []"
  using prompt_variants_nonempty[of r agent design_b] by (simp add: sort_key_eq_Nil)

text \<open>
  C10 says that \<^verbatim>\<open>prompt_variants_for_agent\<close> returns a non-empty list for every agent
  key. It does not always return: with the library feature on and a variant file that is
  not valid UTF-8 in the designer's prompt directory, the strict read raises, and so does
  \<^verbatim>\<open>run_step_once\<close> before it selects a variant.
\<close>

theorem prompt_variants_undecodable:
  "prompt_variants_for_agent undecodable_repo ''designer'' True = Inl UnicodeDecodeError
   \<and> run_step_once (example_env exact_arith idle_agent) designer_step 0 DEFAULT_POLICY True []
         no_brief_cfg undecodable_repo = Inl UnicodeDecodeError"
proof -
  have pv: "prompt_variants_for_agent undecodable_repo ''designer'' True = Inl UnicodeDecodeError"
    by (simp add: prompt_variants_for_agent_def scan_variants_def undecodable_repo_def
        example_repo_def file_id_def)
  have ag: "prompt_agent (apply_step_limits_overrides DEFAULT_POLICY designer_step) = ''designer''"
    by (simp add: apply_step_limits_overrides_def designer_step_def StepSpec_new_def
        split: option.splits)
  show ?thesis
    unfolding run_step_once_def by (simp add: pv ag Let_def)
qed

text \<open>
  C10, with the raising scans set apart. \<^verbatim>\<open>prompt_variants_for_agent\<close> never returns
  the empty list. It raises exactly when a scan it makes raises: the scan of the prompt
  directory in the library mode, or, when that found no variant, the scan of the template
  directory. Otherwise it returns a non-empty list; when the scans it makes find no
  variant file it returns exactly the two embedded variants, with the ids
  \<^verbatim>\<open>embedded/<agent>/v1\<close> and \<^verbatim>\<open>embedded/<agent>/v2\<close>. Whenever it returns,
  \<^verbatim>\<open>select_variant\<close>, called on the sorted ids as \<^verbatim>\<open>run_step_once\<close> calls it, returns
  one of them: it raises no division by zero, nor any other error.
\<close>

theorem prompt_variants_select_total:
  "prompt_variants_for_agent r agent design_b \<noteq> Inr []
   \<and> (prompt_variants_for_agent r agent design_b = Inl err \<longleftrightarrow>
        (design_b \<and> scan_variants (prompts_dir r agent) = Inl err)
        \<or> ((\<not> design_b \<or> scan_variants (prompts_dir r agent) = Inr [])
           \<and> scan_variants (templates_dir r agent) = Inl err))
   \<and> ((design_b \<longrightarrow> scan_variants (prompts_dir r agent) = Inr [])
        \<and> scan_variants (templates_dir r agent) = Inr []
      \<longrightarrow> prompt_variants_for_agent r agent design_b
            = Inr [(''embedded/'' @ agent @ ''/v1'',
                    embedded_base @ ''Variant: strict minimal edits.''),
                   (''embedded/'' @ agent @ ''/v2'',
                    embedded_base @ ''Variant: produce complete output in one pass.'')])
   \<and> (\<forall>vs. prompt_variants_for_agent r agent design_b = Inr vs \<longrightarrow>
         vs \<noteq> []
         \<and> (\<exists>chosen pol'.
               select_variant fl pol agent epoch (map fst (sort_key fst vs)) = Inr (chosen, pol')
               \<and> chosen \<in> set (map fst vs)))"
proof (intro conjI impI allI)
  show "prompt_variants_for_agent r agent design_b \<noteq> Inr []"
    by (rule prompt_variants_nonempty)
next
  show "prompt_variants_for_agent r agent design_b = Inl err \<longleftrightarrow>
        (design_b \<and> scan_variants (prompts_dir r agent) = Inl err)
        \<or> ((\<not> design_b \<or> scan_variants (prompts_dir r agent) = Inr [])
           \<and> scan_variants (templates_dir r agent) = Inl err)"
    by (rule prompt_variants_raises)
next
  assume "(design_b \<longrightarrow> scan_variants (prompts_dir r agent) = Inr [])
        \<and> scan_variants (templates_dir r agent) = Inr []"
  then show "prompt_variants_for_agent r agent design_b
            = Inr [(''embedded/'' @ agent @ ''/v1'',
                    embedded_base @ ''Variant: strict minimal edits.''),
                   (''embedded/'' @ agent @ ''/v2'',
                    embedded_base @ ''Variant: produce complete output in one pass.'')]"
    by (simp add: prompt_variants_embedded embedded_variants_def)
next
  fix vs assume pv: "prompt_variants_for_agent r agent design_b = Inr vs"
  then show "vs \<noteq> []" using prompt_variants_nonempty[of r agent design_b] by auto
next
  fix vs assume pv: "prompt_variants_for_agent r agent design_b = Inr vs"
  from select_variant_total[OF sorted_variants_nonempty[OF pv], of fl pol agent epoch]
  obtain c pol' where
    "select_variant fl pol agent epoch (map fst (sort_key fst vs)) = Inr (c, pol')"
    and "c \<in> set (map fst (sort_key fst vs))"
    by (elim exE conjE)
  then show "\<exists>chosen pol'.
         select_variant fl pol agent epoch (map fst (sort_key fst vs)) = Inr (chosen, pol')
         \<and> chosen \<in> set (map fst vs)"
    by auto
qed

theorem prompt_variants_select_total_witness:
  "scan_variants (prompts_dir (example_repo [] []) ''qa'') = Inr []
   \<and> scan_variants (templates_dir (example_repo [] []) ''qa'') = Inr []
   \<and> prompt_variants_for_agent (example_repo [] []) ''qa'' True
       = Inr [(''embedded/qa/v1'', embedded_base @ ''Variant: strict minimal edits.''),
              (''embedded/qa/v2'', embedded_base @ ''Variant: produce complete output in one pass.'')]
   \<and> (\<exists>chosen pol'.
         select_variant exact_arith DEFAULT_POLICY ''qa'' ''e1'' [''embedded/qa/v1'', ''embedded/qa/v2'']
           = Inr (chosen, pol')
         \<and> chosen \<in> set [''embedded/qa/v1'', ''embedded/qa/v2''])"
proof -
  let ?r = "example_repo [] []"
  let ?vs = "[(''embedded/qa/v1'', embedded_base @ ''Variant: strict minimal edits.''),
              (''embedded/qa/v2'', embedded_base @ ''Variant: produce complete output in one pass.'')]"
  have h1: "scan_variants (prompts_dir ?r ''qa'') = Inr []"
    and h2: "scan_variants (templates_dir ?r ''qa'') = Inr []"
    by (simp_all add: scan_variants_def example_repo_def)
  note inst = prompt_variants_select_total[of ?r "''qa''" True ValueError exact_arith DEFAULT_POLICY "''e1''"]
  from inst have "(True \<longrightarrow> scan_variants (prompts_dir ?r ''qa'') = Inr [])
        \<and> scan_variants (templates_dir ?r ''qa'') = Inr []
      \<longrightarrow> prompt_variants_for_agent ?r ''qa'' True
            = Inr [(''embedded/'' @ ''qa'' @ ''/v1'',
                    embedded_base @ ''Variant: strict minimal edits.''),
                   (''embedded/'' @ ''qa'' @ ''/v2'',
                    embedded_base @ ''Variant: produce complete output in one pass.'')]"
    by (rule conjunct1[OF conjunct2[OF conjunct2]])
  with h1 h2 have pv: "prompt_variants_for_agent ?r ''qa'' True = Inr ?vs" by simp
  from inst have "\<forall>vs. prompt_variants_for_agent ?r ''qa'' True = Inr vs \<longrightarrow>
         vs \<noteq> []
         \<and> (\<exists>chosen pol'.
               select_variant exact_arith DEFAULT_POLICY ''qa'' ''e1'' (map fst (sort_key fst vs))
                 = Inr (chosen, pol')
               \<and> chosen \<in> set (map fst vs))"
    by (rule conjunct2[OF conjunct2[OF conjunct2]])
  with pv have "\<exists>chosen pol'.
               select_variant exact_arith DEFAULT_POLICY ''qa'' ''e1'' (map fst (sort_key fst ?vs))
                 = Inr (chosen, pol')
               \<and> chosen \<in> set (map fst ?vs)"
    by blast
  then have sel: "\<exists>chosen pol'.
         select_variant exact_arith DEFAULT_POLICY ''qa'' ''e1'' [''embedded/qa/v1'', ''embedded/qa/v2'']
           = Inr (chosen, pol')
         \<and> chosen \<in> set [''embedded/qa/v1'', ''embedded/qa/v2'']"
    by simp
  from h1 h2 pv sel show ?thesis by (intro conjI)
qed

subsection \<open>The scheduler: fixer and lock violations\<close>








text \<open>
  The attempt of the worked example, which no float operation enters.
\<close>

lemma attempt_examples:
  "name (default_steps False False ! 2) = ''designer''
   \<and> allowlist (default_steps False False ! 2) = [''design/**'', ''REQUIREMENTS.md'']
   \<and> \<not> can_modify_brief (default_steps False False ! 2)
   \<and> map_of (worktree brief_pre) ''PROJECT_BRIEF.md'' = Some ''second''
   \<and> \<not> isl (attempt_example fl)
   \<and> \<not> fst (projr (attempt_example fl))
   \<and> s_step_errors (snd (projr (attempt_example fl)))
       = [''Path not allowlisted for designer: PROJECT_BRIEF.md'', ''PROJECT_BRIEF_LOCKED'']
   \<and> map_of (worktree (s_repo (snd (projr (attempt_example fl))))) ''PROJECT_BRIEF.md''
       = Some ''first''"
  by code_simp

text \<open>
  C2 requires that a step attempt with a lock violation is aborted with every modified
  path restored to its pre-step content. In the attempt of the worked example the
  designer step, which may not modify the brief, rewrites it. The attempt fails with the
  allowlist error and \<^verbatim>\<open>PROJECT_BRIEF_LOCKED\<close>, and the brief ends with the committed
  content \<open>first\<close>, not with its pre-step content \<open>second\<close>: the revert is that of the
  gate, which restores from the index, and the accepted edit of the earlier step is lost.
\<close>

theorem lock_violation_restores_index:
  "name (default_steps False False ! 2) = ''designer''
   \<and> allowlist (default_steps False False ! 2) = [''design/**'', ''REQUIREMENTS.md'']
   \<and> \<not> can_modify_brief (default_steps False False ! 2)
   \<and> map_of (worktree brief_pre) ''PROJECT_BRIEF.md'' = Some ''second''
   \<and> \<not> isl lock_attempt
   \<and> \<not> fst (projr lock_attempt)
   \<and> s_step_errors (snd (projr lock_attempt))
       = [''Path not allowlisted for designer: PROJECT_BRIEF.md'', ''PROJECT_BRIEF_LOCKED'']
   \<and> map_of (worktree (s_repo (snd (projr lock_attempt)))) ''PROJECT_BRIEF.md''
       = Some ''first''"
  unfolding lock_attempt_def by (rule attempt_examples)


subsection \<open>The tuner and the acceptance of its changes\<close>

text \<open>
  The choice \<^verbatim>\<open>run_pipeline\<close> makes once the baseline run, a tuner step that passed
  and the regression run have returned: the regression is the final result exactly when
  its score is strictly greater than the baseline's and it passed the validators and the
  tests and is not hard-invalid; otherwise the changes of the tuner go through
  \<^verbatim>\<open>deterministic_revert\<close> and, when that returns, the baseline is the final result.
\<close>

lemma tuner_acceptance:
  assumes "execute_specialist_steps e step_list pol True brief_text brief_cfg r []
             = Inr (baseline, pol1, r1, flog1)"
    and "run_prompt_tuner_once e pol1 brief_text brief_cfg r1
             = Inr ((True, tuner_errors, tuner_changed, tuner_new), pol2, r2)"
    and "execute_specialist_steps e step_list pol2 True brief_text brief_cfg r2 flog1
             = Inr (regression, pol3, r3, flog3)"
  shows "run_pipeline_from_baseline e True step_list pol brief_text brief_cfg r =
           (if sum_score regression > sum_score baseline \<and> sum_validators_ok regression
               \<and> sum_tests_ok regression \<and> \<not> sum_hard_invalid regression
            then Inr (\<lparr> rs_design_b = True, rs_baseline = baseline,
                        rs_tuner = Some \<lparr> tr_ok = True, tr_errors = tuner_errors,
                                          tr_changed_paths = tuner_changed,
                                          tr_regression = Some regression,
                                          tr_accepted = Some True \<rparr>,
                        rs_final = regression \<rparr>, pol3, r3)
            else (case deterministic_revert tuner_changed tuner_new [] r3 of
                    Inl err \<Rightarrow> Inl err
                  | Inr (reverted, r4) \<Rightarrow>
                      Inr (\<lparr> rs_design_b = True, rs_baseline = baseline,
                             rs_tuner = Some \<lparr> tr_ok = True, tr_errors = tuner_errors,
                                               tr_changed_paths = tuner_changed,
                                               tr_regression = Some regression,
                                               tr_accepted = Some False \<rparr>,
                             rs_final = baseline \<rparr>, pol3, r4)))"
  by (simp add: run_pipeline_from_baseline_def assms accept_tuner_def Let_def
      split: sum.splits prod.splits)

text \<open>
  A step attempt in which the agent changes nothing passes the gate and the lock rules,
  so a run of steps with such an agent leaves the repository and the counters as they
  were.
\<close>

lemma changed_paths_same: "changed_paths_from_snapshots s s = ([], [], [])"
  by (simp add: changed_paths_from_snapshots_def Let_def)

lemma gate_window_unchanged:
  assumes "staged_paths r = []"
    and "0 \<le> max_changed_files step" and "0 \<le> max_total_bytes_changed step"
    and "0 \<le> max_deleted_files step"
  shows "gate_window e step (snapshot_state e r) (git_index_hash r) code r =
           Inr (\<lparr> exit_code = code, changed_paths = [], deleted_paths = [], new_paths = [],
                  bytes_changed = 0, invariant_errors = [], allowlist_errors = [],
                  cap_errors = [], tracked_restore_paths = [], removed_new_paths = [] \<rparr>, r)"
proof -
  have st: "staged (snapshot_state e r) = []"
    using assms(1) by (simp add: snapshot_state_def stripped_lines_def)
  show ?thesis
    using assms(2-4)
    by (simp add: gate_window_def changed_paths_same st Let_def check_forbidden_changes_def
        check_allowlist_def bytes_changed_for_paths_def must_revert_def)
qed

lemma select_variant_overrides:
  assumes "select_variant fl pol agent epoch vids = Inr (c, pol1)"
  shows "step_limits_overrides pol1 = step_limits_overrides pol"
  using assms
  by (auto simp: select_variant_def get_variant_stats_bucket_def Let_def
      split: option.splits sum.splits prod.splits)

lemma update_variant_stats_overrides:
  "step_limits_overrides (update_variant_stats fl pol agent epoch v p c a)
     = step_limits_overrides pol"
  by (simp add: update_variant_stats_def get_variant_stats_bucket_def Let_def
      split: option.splits prod.splits)

lemma run_step_once_agent:
  assumes st: "staged_paths r = []"
    and pv: "prompt_variants_for_agent r (prompt_agent step0) d = Inr vs"
    and ov: "step_limits_overrides pol (name step0) = None"
    and ag: "\<And>vt cp pt. codex e (StepPrompt step0 vt a cp pt bt) r = (code, r_post)"
  shows "\<exists>pol1 epoch chosen.
           run_step_once e step0 a pol d bt cfg r =
             (case gate_window e step0 (snapshot_state e r) (git_index_hash r) code r_post of
                Inl err \<Rightarrow> Inl err
              | Inr (res, r') \<Rightarrow>
                  Inr (res,
                       update_variant_stats (float_ops e) pol1 (prompt_agent step0) epoch chosen
                         (\<not> must_revert res \<and> code = 0)
                         ((\<not> must_revert res \<and> code = 0) \<and> a = 0) a,
                       r'))
           \<and> step_limits_overrides pol1 = step_limits_overrides pol"
proof -
  have sp: "apply_step_limits_overrides pol step0 = step0"
    using ov by (simp add: apply_step_limits_overrides_def)
  let ?variants = "sort_key fst vs"
  let ?epoch = "hash_prompt_epoch e (prompt_agent step0) ?variants d r"
  from select_variant_total[OF sorted_variants_nonempty[OF pv], of "float_ops e" pol "prompt_agent step0" ?epoch]
  obtain c pol1 where sel: "select_variant (float_ops e) pol (prompt_agent step0) ?epoch (map fst ?variants) = Inr (c, pol1)"
    and cin: "c \<in> set (map fst ?variants)" by (elim exE conjE)
  from find_fst_mem[OF cin] obtain v where fv: "find (\<lambda>v. fst v = c) ?variants = Some v" by blast
  have stg: "staged (snapshot_state e r) = []"
    using st by (simp add: snapshot_state_def stripped_lines_def)
  have "run_step_once e step0 a pol d bt cfg r =
             (case gate_window e step0 (snapshot_state e r) (git_index_hash r) code r_post of
                Inl err \<Rightarrow> Inl err
              | Inr (res, r') \<Rightarrow>
                  Inr (res,
                       update_variant_stats (float_ops e) pol1 (prompt_agent step0) ?epoch c
                         (\<not> must_revert res \<and> code = 0)
                         ((\<not> must_revert res \<and> code = 0) \<and> a = 0) a,
                       r'))"
    unfolding run_step_once_def
    by (simp add: Let_def sp pv sel fv stg ag split: prod.splits sum.splits)
  with select_variant_overrides[OF sel] show ?thesis by blast
qed

lemma gate_window_kept:
  assumes "gate_window e step pre h code r = Inr (res, r')" and "\<not> must_revert res"
  shows "r' = r"
  using assms
  by (auto simp: gate_window_def Let_def must_revert_def split: prod.splits sum.splits if_splits)

lemma lock_violation_none: "lock_violation_in_changes step [] d r = []"
  by (simp add: lock_violation_in_changes_def)

lemma attempt_body_idle:
  assumes st: "staged_paths (s_repo st) = []"
    and pv: "prompt_variants_for_agent (s_repo st) (prompt_agent step) d = Inr vs"
    and ov: "step_limits_overrides (s_policy st) = Map.empty"
    and ag: "\<And>vt cp pt. codex e (StepPrompt step vt 0 cp pt bt) (s_repo st) = (0, s_repo st)"
    and caps: "0 \<le> max_changed_files step" "0 \<le> max_total_bytes_changed step"
      "0 \<le> max_deleted_files step"
  shows "\<exists>pol2. attempt_body e step d bt cfg 0 st = Inr (True, st\<lparr>s_policy := pol2\<rparr>)
           \<and> step_limits_overrides pol2 = Map.empty"
proof -
  have ov1: "step_limits_overrides (s_policy st) (name step) = None" using ov by simp
  from run_step_once_agent[OF st pv ov1 ag, of cfg]
  obtain pol1 epoch chosen where
    r: "run_step_once e step 0 (s_policy st) d bt cfg (s_repo st) =
             (case gate_window e step (snapshot_state e (s_repo st)) (git_index_hash (s_repo st)) 0 (s_repo st) of
                Inl err \<Rightarrow> Inl err
              | Inr (res, r') \<Rightarrow>
                  Inr (res,
                       update_variant_stats (float_ops e) pol1 (prompt_agent step) epoch chosen
                         (\<not> must_revert res \<and> (0::int) = 0)
                         ((\<not> must_revert res \<and> (0::int) = 0) \<and> (0::int) = 0) 0,
                       r'))"
    and o1: "step_limits_overrides pol1 = step_limits_overrides (s_policy st)"
    by (elim exE conjE)
  let ?pol2 = "update_variant_stats (float_ops e) pol1 (prompt_agent step) epoch chosen True True 0"
  have r2: "run_step_once e step 0 (s_policy st) d bt cfg (s_repo st) =
      Inr (\<lparr> exit_code = 0, changed_paths = [], deleted_paths = [], new_paths = [],
                  bytes_changed = 0, invariant_errors = [], allowlist_errors = [],
                  cap_errors = [], tracked_restore_paths = [], removed_new_paths = [] \<rparr>,
           ?pol2, s_repo st)"
    unfolding r gate_window_unchanged[OF st caps] by (simp add: must_revert_def)
  have "attempt_body e step d bt cfg 0 st = Inr (True, st\<lparr>s_policy := ?pol2\<rparr>)"
    by (simp add: attempt_body_def r2 lock_violation_none Let_def)
  moreover have "step_limits_overrides ?pol2 = Map.empty"
    using o1 ov by (simp add: update_variant_stats_overrides)
  ultimately show ?thesis by blast
qed

lemma run_one_step_idle:
  assumes st: "staged_paths (s_repo st) = []"
    and pv: "prompt_variants_for_agent (s_repo st) (prompt_agent step) d = Inr vs"
    and ov: "step_limits_overrides (s_policy st) = Map.empty"
    and ag: "\<And>vt cp pt. codex e (StepPrompt step vt 0 cp pt bt) (s_repo st) = (0, s_repo st)"
    and caps: "0 \<le> max_changed_files step" "0 \<le> max_total_bytes_changed step"
      "0 \<le> max_deleted_files step"
  shows "\<exists>pol2. run_one_step e d bt cfg step st
                   = Inr (True, st\<lparr>s_policy := pol2, s_step_errors := []\<rparr>)
           \<and> step_limits_overrides pol2 = Map.empty"
proof -
  let ?st = "st\<lparr>s_step_errors := []\<rparr>"
  have a: "staged_paths (s_repo ?st) = []" using st by simp
  have b: "prompt_variants_for_agent (s_repo ?st) (prompt_agent step) d = Inr vs" using pv by simp
  have c: "step_limits_overrides (s_policy ?st) = Map.empty" using ov by simp
  have d: "\<And>vt cp pt. codex e (StepPrompt step vt 0 cp pt bt) (s_repo ?st) = (0, s_repo ?st)"
    using ag by simp
  from attempt_body_idle[OF a b c d caps, of cfg]
  obtain pol2 where
    ab: "attempt_body e step d bt cfg 0 ?st = Inr (True, ?st\<lparr>s_policy := pol2\<rparr>)"
    and o: "step_limits_overrides pol2 = Map.empty" by (elim exE conjE)
  have "run_one_step e d bt cfg step st = Inr (True, st\<lparr>s_policy := pol2, s_step_errors := []\<rparr>)"
    by (simp add: run_one_step_def ab)
  with o show ?thesis by blast
qed

lemma steps_loop_idle:
  assumes st: "staged_paths r = []"
    and steps: "\<forall>step\<in>set step_list.
        (\<exists>vs. prompt_variants_for_agent r (prompt_agent step) d = Inr vs)
        \<and> (\<forall>vt cp pt. codex e (StepPrompt step vt 0 cp pt bt) r = (0, r))
        \<and> 0 \<le> max_changed_files step \<and> 0 \<le> max_total_bytes_changed step
        \<and> 0 \<le> max_deleted_files step"
    and rp: "s_repo st = r"
    and ov: "step_limits_overrides (s_policy st) = Map.empty"
  shows "\<exists>st' acc'. steps_loop e d bt cfg step_list st acc = Inr (st', acc')
           \<and> s_repo st' = r
           \<and> step_limits_overrides (s_policy st') = Map.empty
           \<and> s_retries_beyond_first_total st' = s_retries_beyond_first_total st
           \<and> s_fixer_runs_total st' = s_fixer_runs_total st
           \<and> s_changed_files_total st' = s_changed_files_total st
           \<and> s_hard_invalid st' = s_hard_invalid st
           \<and> s_fixers_jsonl st' = s_fixers_jsonl st"
  using steps rp ov
proof (induction step_list arbitrary: st acc)
  case Nil
  then show ?case by simp
next
  case (Cons step rest)
  from Cons.prems(1) obtain vs where
    pv: "prompt_variants_for_agent r (prompt_agent step) d = Inr vs"
    and ag: "\<And>vt cp pt. codex e (StepPrompt step vt 0 cp pt bt) r = (0, r)"
    and caps: "0 \<le> max_changed_files step" "0 \<le> max_total_bytes_changed step"
      "0 \<le> max_deleted_files step"
    by auto
  have a: "staged_paths (s_repo st) = []" using st Cons.prems(2) by simp
  have b: "prompt_variants_for_agent (s_repo st) (prompt_agent step) d = Inr vs"
    using pv Cons.prems(2) by simp
  have c: "\<And>vt cp pt. codex e (StepPrompt step vt 0 cp pt bt) (s_repo st) = (0, s_repo st)"
    using ag Cons.prems(2) by simp
  from run_one_step_idle[OF a b Cons.prems(3) c caps, of cfg]
  obtain pol2 where
    one: "run_one_step e d bt cfg step st = Inr (True, st\<lparr>s_policy := pol2, s_step_errors := []\<rparr>)"
    and o: "step_limits_overrides pol2 = Map.empty" by (elim exE conjE)
  let ?st1 = "st\<lparr>s_policy := pol2, s_step_errors := []\<rparr>"
  have rest: "\<forall>step\<in>set rest.
        (\<exists>vs. prompt_variants_for_agent r (prompt_agent step) d = Inr vs)
        \<and> (\<forall>vt cp pt. codex e (StepPrompt step vt 0 cp pt bt) r = (0, r))
        \<and> 0 \<le> max_changed_files step \<and> 0 \<le> max_total_bytes_changed step
        \<and> 0 \<le> max_deleted_files step"
    using Cons.prems(1) by simp
  have r1: "s_repo ?st1 = r" using Cons.prems(2) by simp
  have o1: "step_limits_overrides (s_policy ?st1) = Map.empty" using o by simp
  from Cons.IH[OF rest r1 o1,
      of "acc @ [\<lparr> sm_step = name step, sm_ok = True, sm_errors = s_step_errors ?st1 \<rparr>]"]
  obtain st' acc' where
    l: "steps_loop e d bt cfg rest ?st1
          (acc @ [\<lparr> sm_step = name step, sm_ok = True, sm_errors = s_step_errors ?st1 \<rparr>])
        = Inr (st', acc')"
    and f: "s_repo st' = r" "step_limits_overrides (s_policy st') = Map.empty"
      "s_retries_beyond_first_total st' = s_retries_beyond_first_total ?st1"
      "s_fixer_runs_total st' = s_fixer_runs_total ?st1"
      "s_changed_files_total st' = s_changed_files_total ?st1"
      "s_hard_invalid st' = s_hard_invalid ?st1"
      "s_fixers_jsonl st' = s_fixers_jsonl ?st1"
    by (elim exE conjE)
  have "steps_loop e d bt cfg (step # rest) st acc = Inr (st', acc')"
    using l by (simp add: one Let_def)
  with f show ?case by simp
qed

lemma execute_idle:
  assumes st: "staged_paths r = []"
    and steps: "\<forall>step\<in>set step_list.
        (\<exists>vs. prompt_variants_for_agent r (prompt_agent step) d = Inr vs)
        \<and> (\<forall>vt cp pt. codex e (StepPrompt step vt 0 cp pt bt) r = (0, r))
        \<and> 0 \<le> max_changed_files step \<and> 0 \<le> max_total_bytes_changed step
        \<and> 0 \<le> max_deleted_files step"
    and ov: "step_limits_overrides pol = Map.empty"
  shows "\<exists>summ pol'. execute_specialist_steps e step_list pol d bt cfg r flog
                        = Inr (summ, pol', r, flog)
           \<and> step_limits_overrides pol' = Map.empty
           \<and> sum_score summ =
                compute_eval_score d False (ok (validate_all e d r)) (fst (run_test_commands e r))
                  0 0 0 (ok (validate_base_files_and_structure e d r))
           \<and> sum_validators_ok summ = ok (validate_all e d r)
           \<and> sum_tests_ok summ = fst (run_test_commands e r)
           \<and> \<not> sum_hard_invalid summ"
proof -
  let ?st = "\<lparr> s_policy = pol, s_repo = r, s_retries_beyond_first_total = 0,
               s_fixer_runs_total = 0, s_changed_files_total = 0, s_hard_invalid = False,
               s_step_errors = [], s_fixers_jsonl = flog \<rparr>"
  have rp: "s_repo ?st = r" by simp
  have o: "step_limits_overrides (s_policy ?st) = Map.empty" using ov by simp
  from steps_loop_idle[OF st steps rp o, of cfg "[]"]
  obtain st' acc' where
    l: "steps_loop e d bt cfg step_list ?st [] = Inr (st', acc')"
    and f: "s_repo st' = r" "step_limits_overrides (s_policy st') = Map.empty"
      "s_retries_beyond_first_total st' = 0"
      "s_fixer_runs_total st' = 0"
      "s_changed_files_total st' = 0"
      "\<not> s_hard_invalid st'"
      "s_fixers_jsonl st' = flog"
    by (elim exE conjE) simp
  show ?thesis
    unfolding execute_specialist_steps_def l using f by (simp add: Let_def)
qed

lemma default_steps_idle:
  "\<forall>step\<in>set (default_steps True False).
     name step \<noteq> ''prompt_tuner'' \<and> 0 \<le> max_changed_files step
     \<and> 0 \<le> max_total_bytes_changed step \<and> 0 \<le> max_deleted_files step"
  by code_simp

lemma tuner_agent_idle:
  "name step \<noteq> ''prompt_tuner''
   \<Longrightarrow> codex (example_env fl tuner_agent) (StepPrompt step vt a cp pt bt) r = (0, r)"
  by (simp add: example_env_def tuner_agent_def)

lemma tuner_agent_tunes:
  "codex (example_env fl tuner_agent) (StepPrompt prompt_tuner_step vt a cp pt bt) library_repo
     = (0, tuned_repo)"
  by (simp add: example_env_def tuner_agent_def prompt_tuner_step_def StepSpec_new_def
      tuned_repo_def)

lemma library_variants:
  "\<exists>vs. prompt_variants_for_agent library_repo agent True = Inr vs"
  "\<exists>vs. prompt_variants_for_agent tuned_repo agent True = Inr vs"
  by (simp_all add: prompt_variants_for_agent_def scan_variants_def tuned_repo_def
      library_repo_def set_prompt_def example_repo_def write_file_def file_id_def file_text_def)

lemma library_staged: "staged_paths library_repo = []" "staged_paths tuned_repo = []"
  by (simp_all add: tuned_repo_def library_repo_def set_prompt_def example_repo_def
      write_file_def)

lemma library_checks:
  "ok (validate_all (example_env fl tuner_agent) True library_repo)
   \<and> ok (validate_all (example_env fl tuner_agent) True tuned_repo)
   \<and> ok (guardrails_of tuned_repo)
   \<and> fst (run_test_commands (example_env fl tuner_agent) library_repo)
   \<and> fst (run_test_commands (example_env fl tuner_agent) tuned_repo)
   \<and> ok (validate_base_files_and_structure (example_env fl tuner_agent) True library_repo)
   \<and> ok (validate_base_files_and_structure (example_env fl tuner_agent) True tuned_repo)
   \<and> compute_eval_score True False True True 0 0 0 True = 100"
  by code_simp

lemma tuner_gate:
  "\<not> isl (gate_window (example_env fl tuner_agent) prompt_tuner_step
            (snapshot_state (example_env fl tuner_agent) library_repo)
            (git_index_hash library_repo) 0 tuned_repo)
   \<and> exit_code (fst (projr (gate_window (example_env fl tuner_agent) prompt_tuner_step
            (snapshot_state (example_env fl tuner_agent) library_repo)
            (git_index_hash library_repo) 0 tuned_repo))) = 0
   \<and> changed_paths (fst (projr (gate_window (example_env fl tuner_agent) prompt_tuner_step
            (snapshot_state (example_env fl tuner_agent) library_repo)
            (git_index_hash library_repo) 0 tuned_repo))) = [''prompts/qa/v1.txt'']
   \<and> new_paths (fst (projr (gate_window (example_env fl tuner_agent) prompt_tuner_step
            (snapshot_state (example_env fl tuner_agent) library_repo)
            (git_index_hash library_repo) 0 tuned_repo))) = []
   \<and> invariant_errors (fst (projr (gate_window (example_env fl tuner_agent) prompt_tuner_step
            (snapshot_state (example_env fl tuner_agent) library_repo)
            (git_index_hash library_repo) 0 tuned_repo))) = []
   \<and> allowlist_errors (fst (projr (gate_window (example_env fl tuner_agent) prompt_tuner_step
            (snapshot_state (example_env fl tuner_agent) library_repo)
            (git_index_hash library_repo) 0 tuned_repo))) = []
   \<and> cap_errors (fst (projr (gate_window (example_env fl tuner_agent) prompt_tuner_step
            (snapshot_state (example_env fl tuner_agent) library_repo)
            (git_index_hash library_repo) 0 tuned_repo))) = []"
  by code_simp

lemma tuner_revert:
  "isl (deterministic_revert [''prompts/qa/v1.txt''] [] [] tuned_repo)
   \<and> projl (deterministic_revert [''prompts/qa/v1.txt''] [] [] tuned_repo)
       = OrchestratorError ''E_CMD_FAILED''
   \<and> map_of (vcs_index library_repo) ''prompts/qa/v1.txt'' = None
   \<and> map_of (worktree library_repo) ''prompts/qa/v1.txt'' = Some ''Be careful.''
   \<and> map_of (worktree tuned_repo) ''prompts/qa/v1.txt'' = Some ''Be thorough.''"
  by code_simp

lemma tuner_run_stages:
  fixes fl :: float_arith
  defines "e \<equiv> example_env fl tuner_agent"
  shows "\<exists>baseline pol1 pol2 regression pol3.
      execute_specialist_steps e (default_steps True False) DEFAULT_POLICY True ''brief''
          no_brief_cfg library_repo [] = Inr (baseline, pol1, library_repo, [])
      \<and> sum_score baseline = 100
      \<and> run_prompt_tuner_once e pol1 ''brief'' no_brief_cfg library_repo
          = Inr ((True, [], [''prompts/qa/v1.txt''], []), pol2, tuned_repo)
      \<and> execute_specialist_steps e (default_steps True False) pol2 True ''brief''
          no_brief_cfg tuned_repo [] = Inr (regression, pol3, tuned_repo, [])
      \<and> sum_score regression = 100
      \<and> \<not> accept_tuner baseline regression
      \<and> run_pipeline_from_baseline e True (default_steps True False) DEFAULT_POLICY ''brief''
          no_brief_cfg library_repo = Inl (OrchestratorError ''E_CMD_FAILED'')"
proof -
  have idle: "\<forall>step\<in>set (default_steps True False).
        (\<exists>vs. prompt_variants_for_agent r (prompt_agent step) True = Inr vs)
        \<and> (\<forall>vt cp pt. codex e (StepPrompt step vt 0 cp pt ''brief'') r = (0, r))
        \<and> 0 \<le> max_changed_files step \<and> 0 \<le> max_total_bytes_changed step
        \<and> 0 \<le> max_deleted_files step"
    if "\<And>agent. \<exists>vs. prompt_variants_for_agent r agent True = Inr vs" for r
    using default_steps_idle that by (simp add: e_def tuner_agent_idle)
  have ov0: "step_limits_overrides DEFAULT_POLICY = Map.empty"
    by (simp add: DEFAULT_POLICY_def)
  note chk = library_checks[of fl, folded e_def]
  from execute_idle[OF library_staged(1) idle[OF library_variants(1)] ov0, of no_brief_cfg "[]"]
  obtain baseline pol1 where
    b: "execute_specialist_steps e (default_steps True False) DEFAULT_POLICY True ''brief''
          no_brief_cfg library_repo [] = Inr (baseline, pol1, library_repo, [])"
    and ov1: "step_limits_overrides pol1 = Map.empty"
    and bs: "sum_score baseline = 100"
    using chk by (elim exE conjE) simp
  let ?G = "gate_window e prompt_tuner_step (snapshot_state e library_repo)
              (git_index_hash library_repo) 0 tuned_repo"
  note tg = tuner_gate[of fl, folded e_def]
  from tg obtain res r' where g: "?G = Inr (res, r')" by (cases ?G) auto
  from tg have rs: "exit_code res = 0" "changed_paths res = [''prompts/qa/v1.txt'']"
    "new_paths res = []" "invariant_errors res = []" "allowlist_errors res = []"
    "cap_errors res = []"
    unfolding g by simp_all
  then have nr: "\<not> must_revert res" by (simp add: must_revert_def)
  from gate_window_kept[OF g nr] have r': "r' = tuned_repo" .
  obtain vs where pv: "prompt_variants_for_agent library_repo (prompt_agent prompt_tuner_step) True = Inr vs"
    using library_variants(1) by blast
  have ovt: "step_limits_overrides pol1 (name prompt_tuner_step) = None" using ov1 by simp
  have ag: "\<And>vt cp pt. codex e (StepPrompt prompt_tuner_step vt 0 cp pt ''brief'') library_repo
              = (0, tuned_repo)"
    unfolding e_def by (rule tuner_agent_tunes)
  from run_step_once_agent[OF library_staged(1) pv ovt ag, of no_brief_cfg]
  obtain pol2 where
    rso: "run_step_once e prompt_tuner_step 0 pol1 True ''brief'' no_brief_cfg library_repo
            = Inr (res, pol2, tuned_repo)"
    and ov2: "step_limits_overrides pol2 = Map.empty"
    unfolding g r' using ov1 by (auto simp: update_variant_stats_overrides)
  have t: "run_prompt_tuner_once e pol1 ''brief'' no_brief_cfg library_repo
          = Inr ((True, [], [''prompts/qa/v1.txt''], []), pol2, tuned_repo)"
    using chk by (simp add: run_prompt_tuner_once_def Let_def rso rs)
  from execute_idle[OF library_staged(2) idle[OF library_variants(2)] ov2, of no_brief_cfg "[]"]
  obtain regression pol3 where
    rg: "execute_specialist_steps e (default_steps True False) pol2 True ''brief''
          no_brief_cfg tuned_repo [] = Inr (regression, pol3, tuned_repo, [])"
    and gs: "sum_score regression = 100"
    using chk by (elim exE conjE) simp
  have na: "\<not> accept_tuner baseline regression" using bs gs by (simp add: accept_tuner_def)
  have rv: "deterministic_revert [''prompts/qa/v1.txt''] [] [] tuned_repo
              = Inl (OrchestratorError ''E_CMD_FAILED'')"
    using tuner_revert by (cases "deterministic_revert [''prompts/qa/v1.txt''] [] [] tuned_repo") auto
  have "run_pipeline_from_baseline e True (default_steps True False) DEFAULT_POLICY ''brief''
          no_brief_cfg library_repo = Inl (OrchestratorError ''E_CMD_FAILED'')"
    by (simp add: run_pipeline_from_baseline_def b t rg na rv Let_def)
  with b bs t rg gs na show ?thesis by blast
qed

text \<open>
  C5 requires that, on rejection, the changes of the tuner are reverted and the final
  result is the baseline. In the run of the worked example the prompt library is not
  tracked. The baseline run scores 100; the tuner step rewrites the variant
  \<^verbatim>\<open>prompts/qa/v1.txt\<close>, within its allowlist, and passes the gate and the guardrails;
  the regression run scores 100, which is not strictly greater, so the change is
  rejected. The revert asks the version-control tool to restore the rewritten file, which
  the index does not know: \<^verbatim>\<open>E_CMD_FAILED\<close> is raised, the run has no final result, and
  the rewritten variant stays.
\<close>

theorem tuner_rejection_raises:
  "map_of (vcs_index library_repo) ''prompts/qa/v1.txt'' = None
   \<and> map_of (worktree library_repo) ''prompts/qa/v1.txt'' = Some ''Be careful.''
   \<and> map_of (worktree tuned_repo) ''prompts/qa/v1.txt'' = Some ''Be thorough.''
   \<and> (\<exists>baseline pol1 pol2 regression pol3.
         execute_specialist_steps (example_env exact_arith tuner_agent) (default_steps True False)
             DEFAULT_POLICY True ''brief'' no_brief_cfg library_repo []
           = Inr (baseline, pol1, library_repo, [])
         \<and> sum_score baseline = 100
         \<and> run_prompt_tuner_once (example_env exact_arith tuner_agent) pol1 ''brief''
               no_brief_cfg library_repo
             = Inr ((True, [], [''prompts/qa/v1.txt''], []), pol2, tuned_repo)
         \<and> execute_specialist_steps (example_env exact_arith tuner_agent)
               (default_steps True False) pol2 True ''brief'' no_brief_cfg tuned_repo []
             = Inr (regression, pol3, tuned_repo, [])
         \<and> sum_score regression = 100
         \<and> \<not> accept_tuner baseline regression)
   \<and> tuner_run = Inl (OrchestratorError ''E_CMD_FAILED'')"
proof -
  from tuner_run_stages[of exact_arith] obtain baseline pol1 pol2 regression pol3 where
    s: "execute_specialist_steps (example_env exact_arith tuner_agent) (default_steps True False)
             DEFAULT_POLICY True ''brief'' no_brief_cfg library_repo []
           = Inr (baseline, pol1, library_repo, [])"
      "sum_score baseline = 100"
      "run_prompt_tuner_once (example_env exact_arith tuner_agent) pol1 ''brief''
               no_brief_cfg library_repo
             = Inr ((True, [], [''prompts/qa/v1.txt''], []), pol2, tuned_repo)"
      "execute_specialist_steps (example_env exact_arith tuner_agent)
               (default_steps True False) pol2 True ''brief'' no_brief_cfg tuned_repo []
             = Inr (regression, pol3, tuned_repo, [])"
      "sum_score regression = 100"
      "\<not> accept_tuner baseline regression"
    and f: "run_pipeline_from_baseline (example_env exact_arith tuner_agent) True
              (default_steps True False) DEFAULT_POLICY ''brief'' no_brief_cfg library_repo
            = Inl (OrchestratorError ''E_CMD_FAILED'')"
    by (elim exE conjE)
  have ex: "\<exists>baseline pol1 pol2 regression pol3.
         execute_specialist_steps (example_env exact_arith tuner_agent) (default_steps True False)
             DEFAULT_POLICY True ''brief'' no_brief_cfg library_repo []
           = Inr (baseline, pol1, library_repo, [])
         \<and> sum_score baseline = 100
         \<and> run_prompt_tuner_once (example_env exact_arith tuner_agent) pol1 ''brief''
               no_brief_cfg library_repo
             = Inr ((True, [], [''prompts/qa/v1.txt''], []), pol2, tuned_repo)
         \<and> execute_specialist_steps (example_env exact_arith tuner_agent)
               (default_steps True False) pol2 True ''brief'' no_brief_cfg tuned_repo []
             = Inr (regression, pol3, tuned_repo, [])
         \<and> sum_score regression = 100
         \<and> \<not> accept_tuner baseline regression"
    using s by blast
  have t: "tuner_run = Inl (OrchestratorError ''E_CMD_FAILED'')"
    unfolding tuner_run_def by (rule f)
  from tuner_revert ex t show ?thesis by (intro conjI) simp_all
qed

end
